theory Spec2Isabelle
  imports Complex_Main "HOL-Library.Sublist" "HOL-Library.Word" "HOL-Library.AList"
begin

section \<open>Go strings and runtime panics\<close>

text \<open>
  A Go \<^verbatim>\<open>string\<close> is a sequence of bytes and \<^verbatim>\<open>len\<close> counts bytes, so a Go string
  is a \<^typ>\<open>string\<close> (a list of 8-bit characters). The non-ASCII currency glyphs of the
  source are written as their UTF-8 bytes.

  A run-time panic of the Go program is a value of \<open>go_panic\<close>; a function that can panic
  returns \<open>go_panic + 'a\<close>.
\<close>

datatype go_panic = SendOnClosedChannel | CloseOfClosedChannel | SliceBoundsOutOfRange

text \<open>
  \<^verbatim>\<open>strings.TrimSpace\<close> removes the leading and the trailing white space of a string, as
  \<^verbatim>\<open>unicode.IsSpace\<close> defines it: the six ASCII characters of Go's \<^verbatim>\<open>asciiSpace\<close> table
  (\<^verbatim>\<open>\t \n \v \f \r\<close> and the space) and the code points U+0085, U+00A0, U+1680,
  U+2000 to U+200A, U+2028, U+2029, U+202F, U+205F and U+3000. Go decodes the string as
  UTF-8 from the left and then from the right, and stops at the first rune that is not
  white space (a byte that does not decode is not white space). On bytes this strips,
  while there is one, a leading UTF-8 encoding of a white space rune, and then, while
  there is one, a trailing one: every byte of such an encoding after its first is a
  continuation byte, so decoding the last rune of a string that ends with the encoding
  finds exactly that encoding.
\<close>

definition asciiSpace :: "char \<Rightarrow> bool" where
  "asciiSpace c = (c = CHR '' '' \<or> c = CHR 0x09 \<or> c = CHR 0x0A \<or> c = CHR 0x0B \<or> c = CHR 0x0C \<or> c = CHR 0x0D)"

definition space_runes :: "string list" where
  "space_runes =
     [[CHR 0x09], [CHR 0x0A], [CHR 0x0B], [CHR 0x0C], [CHR 0x0D], [CHR 0x20],
      [CHR 0xC2, CHR 0x85], [CHR 0xC2, CHR 0xA0],
      [CHR 0xE1, CHR 0x9A, CHR 0x80],
      [CHR 0xE2, CHR 0x80, CHR 0x80], [CHR 0xE2, CHR 0x80, CHR 0x81],
      [CHR 0xE2, CHR 0x80, CHR 0x82], [CHR 0xE2, CHR 0x80, CHR 0x83],
      [CHR 0xE2, CHR 0x80, CHR 0x84], [CHR 0xE2, CHR 0x80, CHR 0x85],
      [CHR 0xE2, CHR 0x80, CHR 0x86], [CHR 0xE2, CHR 0x80, CHR 0x87],
      [CHR 0xE2, CHR 0x80, CHR 0x88], [CHR 0xE2, CHR 0x80, CHR 0x89],
      [CHR 0xE2, CHR 0x80, CHR 0x8A],
      [CHR 0xE2, CHR 0x80, CHR 0xA8], [CHR 0xE2, CHR 0x80, CHR 0xA9],
      [CHR 0xE2, CHR 0x80, CHR 0xAF],
      [CHR 0xE2, CHR 0x81, CHR 0x9F],
      [CHR 0xE3, CHR 0x80, CHR 0x80]]"

definition starts_with_one_of :: "string list \<Rightarrow> string \<Rightarrow> string option" where
  "starts_with_one_of ws s = find (\<lambda>w. w \<noteq> [] \<and> prefix w s) ws"

function trim_left :: "string list \<Rightarrow> string \<Rightarrow> string" where
  "trim_left ws s =
     (case starts_with_one_of ws s of
        Some w \<Rightarrow> trim_left ws (drop (length w) s)
      | None \<Rightarrow> s)"
  by pat_completeness auto
termination
proof (relation "measure (\<lambda>(ws, s). length s)")
  show "wf (measure (\<lambda>(ws, s). length s))" by simp
next
  fix ws :: "string list" and s w :: string
  assume "starts_with_one_of ws s = Some w"
  then have "w \<noteq> []" and "prefix w s"
    by (auto simp: starts_with_one_of_def find_Some_iff)
  then have "s \<noteq> []" by auto
  with \<open>w \<noteq> []\<close> show "((ws, drop (length w) s), (ws, s)) \<in> measure (\<lambda>(ws, s). length s)"
    by simp
qed

declare trim_left.simps [simp del]

definition TrimSpace :: "string \<Rightarrow> string" where
  "TrimSpace s = rev (trim_left (map rev space_runes) (rev (trim_left space_runes s)))"

text \<open>
  \<^verbatim>\<open>strings.NewReplacer(old1, new1, old2, new2, ...).Replace(s)\<close>: the string is scanned
  from the left; at each position the first pair (in argument order) whose \<open>old\<close> is a
  prefix of the remaining input is applied and the scan continues after the match;
  otherwise one byte is copied. The source only uses non-empty \<open>old\<close> strings; a pair
  with an empty \<open>old\<close> never matches here.
\<close>

definition match_pair :: "string \<Rightarrow> string \<times> string \<Rightarrow> bool" where
  "match_pair s p = (fst p \<noteq> [] \<and> prefix (fst p) s)"

function Replace :: "(string \<times> string) list \<Rightarrow> string \<Rightarrow> string" where
  "Replace ps s =
     (if s = [] then []
      else (case find (match_pair s) ps of
              Some p \<Rightarrow> snd p @ Replace ps (drop (length (fst p)) s)
            | None \<Rightarrow> hd s # Replace ps (tl s)))"
  by pat_completeness auto
termination
proof (relation "measure (\<lambda>(ps, s). length s)")
  show "wf (measure (\<lambda>(ps, s). length s))" by simp
next
  fix ps :: "(string \<times> string) list" and s :: string and p
  assume "s \<noteq> []" and "find (match_pair s) ps = Some p"
  then have "fst p \<noteq> []" by (auto simp: find_Some_iff match_pair_def)
  with \<open>s \<noteq> []\<close> show "((ps, drop (length (fst p)) s), (ps, s)) \<in> measure (\<lambda>(ps, s). length s)"
    by simp
next
  fix ps :: "(string \<times> string) list" and s :: string
  assume "s \<noteq> []"
  then show "((ps, tl s), (ps, s)) \<in> measure (\<lambda>(ps, s). length s)" by simp
qed

declare Replace.simps [simp del]

text \<open>\<^verbatim>\<open>strings.ReplaceAll(s, old, new)\<close> for a non-empty \<open>old\<close>.\<close>

definition ReplaceAll :: "string \<Rightarrow> string \<Rightarrow> string \<Rightarrow> string" where
  "ReplaceAll s old new = Replace [(old, new)] s"

text \<open>\<^verbatim>\<open>strings.TrimSuffix\<close>, and \<^verbatim>\<open>strings.Count\<close>, \<^verbatim>\<open>strings.Contains\<close> and
  \<^verbatim>\<open>strings.LastIndex\<close> for a one-byte pattern (all the source needs).\<close>

definition TrimSuffix :: "string \<Rightarrow> string \<Rightarrow> string" where
  "TrimSuffix s suf = (if suffix suf s then take (length s - length suf) s else s)"

definition Count_byte :: "string \<Rightarrow> char \<Rightarrow> nat" where
  "Count_byte s c = length (filter (\<lambda>x. x = c) s)"

definition Contains_byte :: "string \<Rightarrow> char \<Rightarrow> bool" where
  "Contains_byte s c = (c \<in> set s)"

fun LastIndex_from :: "int \<Rightarrow> string \<Rightarrow> char \<Rightarrow> int" where
  "LastIndex_from i [] c = - 1"
| "LastIndex_from i (x # xs) c =
     (let r = LastIndex_from (i + 1) xs c in if r \<noteq> - 1 then r else if x = c then i else - 1)"

definition LastIndex_byte :: "string \<Rightarrow> char \<Rightarrow> int" where
  "LastIndex_byte s c = LastIndex_from 0 s c"

text \<open>The UTF-8 encodings of the euro, pound and rupee signs.\<close>

definition euro :: string where "euro = [CHR 0xE2, CHR 0x82, CHR 0xAC]"
definition pound :: string where "pound = [CHR 0xC2, CHR 0xA3]"
definition rupee :: string where "rupee = [CHR 0xE2, CHR 0x82, CHR 0xB9]"

section \<open>tracker.go: TruncateURL\<close>

text \<open>
  \<^verbatim>\<open>
  func TruncateURL(urlStr string, maxLen int) string {
      if len(urlStr) <= maxLen { return urlStr }
      return urlStr[:maxLen-3] + "..."
  }
  \<close>
  \<open>maxLen\<close> is a 64-bit signed \<^verbatim>\<open>int\<close>: \<open>maxLen - 3\<close> wraps around. The slice expression
  \<^verbatim>\<open>urlStr[:hi]\<close> panics unless \<open>0 \<le> hi \<le> len(urlStr)\<close>.
\<close>

definition TruncateURL :: "string \<Rightarrow> 64 word \<Rightarrow> go_panic + string" where
  "TruncateURL urlStr maxLen =
     (if int (length urlStr) \<le> sint maxLen then Inr urlStr
      else (let hi = sint (maxLen - 3) in
            if hi < 0 \<or> int (length urlStr) < hi then Inl SliceBoundsOutOfRange
            else Inr (take (nat hi) urlStr @ ''...'')))"

section \<open>scraper.go: ParsePriceString\<close>

text \<open>
  Prices are \<^verbatim>\<open>float64\<close> in the source and rationals here: every finite \<^verbatim>\<open>float64\<close> is a
  rational and is compared as one. Rounding to the nearest \<^verbatim>\<open>float64\<close>, infinities and
  NaN are outside this model.

  \<^verbatim>\<open>strconv.ParseFloat\<close> belongs to the Go standard library. It is modelled on plain
  decimal numerals: an optional sign, digits with at most one decimal point and at least
  one digit, and nothing else; the value is the exact decimal value, and a numeral too
  large to round to a finite \<^verbatim>\<open>float64\<close> is a range error, as in Go. The further
  syntax that Go accepts (exponents, hexadecimal floats, \<^verbatim>\<open>inf\<close>, \<^verbatim>\<open>nan\<close>, digit-separating
  underscores) is rejected by this model. It serves to evaluate the functions on inputs
  of this plain form; the general properties of the price parser and of the scraper are
  stated for an arbitrary float parser instead.
\<close>

definition isDigit :: "char \<Rightarrow> bool" where
  "isDigit c = (c \<in> set ''0123456789'')"

definition digit_val :: "char \<Rightarrow> int" where
  "digit_val c = int (length (takeWhile (\<lambda>d. d \<noteq> c) ''0123456789''))"

definition digits_val :: "string \<Rightarrow> int" where
  "digits_val ds = foldl (\<lambda>acc c. 10 * acc + digit_val c) 0 ds"

datatype parse_error = ErrSyntax string | ErrRange string

text \<open>
  The least value that does not round to a finite \<^verbatim>\<open>float64\<close>: \<open>2^1024 - 2^970\<close>, half a
  unit in the last place above the largest \<^verbatim>\<open>float64\<close>. From there on
  \<^verbatim>\<open>strconv.ParseFloat\<close> returns a range error.
\<close>

definition float64_overflow :: rat where
  "float64_overflow = 179769313486231580793728971405303415079934132710037826936173778980444968292764750946649017977587207096330286416692887910946555547851940402630657488671505820681908902000708383676273854845817711531764475730270069855571366959622842914819860834936475292719074168444365510704342711559699508093042880177904174497792"

definition ParseFloat :: "string \<Rightarrow> parse_error + rat" where
  "ParseFloat s =
     (let neg = (s \<noteq> [] \<and> hd s = CHR ''-'');
          body = (if s \<noteq> [] \<and> (hd s = CHR ''+'' \<or> hd s = CHR ''-'') then tl s else s);
          ip = takeWhile isDigit body;
          rest = dropWhile isDigit body;
          fp = (if rest \<noteq> [] \<and> hd rest = CHR ''.'' then takeWhile isDigit (tl rest) else []);
          tail = (if rest \<noteq> [] \<and> hd rest = CHR ''.'' then dropWhile isDigit (tl rest) else rest);
          m = of_int (digits_val (ip @ fp)) / 10 ^ length fp
      in if tail \<noteq> [] \<or> (ip = [] \<and> fp = []) then Inl (ErrSyntax s)
         else if float64_overflow \<le> m then Inl (ErrRange s)
         else Inr (if neg then - m else m))"

text \<open>The errors that the two scrapers return (\<^verbatim>\<open>fmt.Errorf\<close> values in the source).\<close>

datatype scrape_error =
    FailedToGetURL
  | BadStatus int
  | FailedToParseHTML
  | CouldNotParseAsFloat string string
  | CouldNotFindPrice
  | VisitError
  | PriceNotFound
  | FailedToParsePrice string
  | CouldNotFindWithSelector string

text \<open>
  \<^verbatim>\<open>
  replacer := strings.NewReplacer("$", "", "EUR", "", "GBP", "", "INR", "", ",", "", " ", "")
  cleanedStr := replacer.Replace(priceStr)
  if strings.Count(cleanedStr, ".") > 1 && strings.Contains(cleanedStr, ",") {
      cleanedStr = strings.ReplaceAll(cleanedStr, ".", "")
      cleanedStr = strings.ReplaceAll(cleanedStr, ",", ".")
  } else if strings.Contains(cleanedStr, ",") && !strings.Contains(cleanedStr, ".") {
      if strings.LastIndex(cleanedStr, ",") == len(cleanedStr)-3 {
          cleanedStr = strings.ReplaceAll(cleanedStr, ",", ".")
      }
  }
  price, err := strconv.ParseFloat(cleanedStr, 64)
  \<close>
  (\<^verbatim>\<open>EUR\<close>, \<^verbatim>\<open>GBP\<close> and \<^verbatim>\<open>INR\<close> stand for the euro, pound and rupee glyphs of the source.)
\<close>

definition replacer :: "string \<Rightarrow> string" where
  "replacer = Replace [(''$'', ''''), (euro, ''''), (pound, ''''), (rupee, ''''), ('','', ''''), ('' '', '''')]"

text \<open>
  \<open>ParsePriceString_with\<close> is the function of the source with the library's float parser
  as a parameter \<open>pf\<close>, so that what is proved of it holds for
  \<^verbatim>\<open>strconv.ParseFloat\<close> itself, whatever it accepts and returns; the type of the
  parsed values is arbitrary. \<open>ParsePriceString\<close> is its instance at the model
  \<open>ParseFloat\<close> above, used to evaluate concrete inputs.
\<close>

definition ParsePriceString_with :: "(string \<Rightarrow> parse_error + 'v) \<Rightarrow> string \<Rightarrow> scrape_error + 'v" where
  "ParsePriceString_with pf priceStr =
     (let cleanedStr = replacer priceStr;
          cleanedStr =
            (if 1 < Count_byte cleanedStr (CHR ''.'') \<and> Contains_byte cleanedStr (CHR '','')
             then ReplaceAll (ReplaceAll cleanedStr ''.'' '''') '','' ''.''
             else if Contains_byte cleanedStr (CHR '','') \<and> \<not> Contains_byte cleanedStr (CHR ''.'')
             then (if LastIndex_byte cleanedStr (CHR '','') = int (length cleanedStr) - 3
                   then ReplaceAll cleanedStr '','' ''.'' else cleanedStr)
             else cleanedStr)
      in case pf cleanedStr of
           Inl err \<Rightarrow> Inl (CouldNotParseAsFloat priceStr cleanedStr)
         | Inr price \<Rightarrow> Inr price)"

definition ParsePriceString :: "string \<Rightarrow> scrape_error + rat" where
  "ParsePriceString = ParsePriceString_with ParseFloat"

section \<open>scraper.go: ScrapePrice\<close>

text \<open>
  The HTML document is seen through the goquery calls that the source makes on it:
  \<^verbatim>\<open>doc.Find(selector)\<close> gives the matching elements in document order, and of an element
  the source reads \<^verbatim>\<open>s.Text()\<close>, \<^verbatim>\<open>s.Attr("content")\<close> and the texts of
  \<^verbatim>\<open>s.SiblingsFiltered(".a-price-fraction")\<close>. A document is therefore a function from
  selectors to lists of such elements. The outcome of \<^verbatim>\<open>http.Get\<close> and of the HTML parser
  is an input of the model.
\<close>

record element =
  el_Text :: string
  el_content :: "string option"
  el_fraction_siblings :: "string list"

type_synonym document = "string \<Rightarrow> element list"

datatype fetched = NoResponse | Response int "document option"

definition commonSelectors :: "string list" where
  "commonSelectors =
     [''.a-price.a-text-price .a-offscreen'',
      ''.a-price-whole'',
      ''.a-offscreen'',
      ''[itemprop='' @ [CHR 0x27] @ ''price'' @ [CHR 0x27] @ '']'',
      ''.price'',
      ''.product-price'',
      ''.current-price'',
      ''#priceblock_ourprice'',
      ''#priceblock_dealprice'',
      ''.priceInfo .price .value'']"

text \<open>The callback on \<^verbatim>\<open>.a-price-whole\<close>: it returns false at the first element, so only
  the first match is read; without a match the text stays empty.\<close>

definition amazon_text :: "document \<Rightarrow> string" where
  "amazon_text doc =
     (case doc ''.a-price-whole'' of
        [] \<Rightarrow> []
      | s # _ \<Rightarrow>
          (let wholePart = TrimSpace (el_Text s);
               wholePart = ReplaceAll wholePart '','' '''';
               wholePart = TrimSuffix wholePart ''.'';
               fractionPart = (case el_fraction_siblings s of [] \<Rightarrow> ''00'' | f # _ \<Rightarrow> TrimSpace f)
           in wholePart @ ''.'' @ fractionPart))"

text \<open>The callback of the general selectors: the first element with a non-empty text or,
  failing that, a non-empty \<^verbatim>\<open>content\<close> attribute.\<close>

fun first_text :: "element list \<Rightarrow> string" where
  "first_text [] = []"
| "first_text (s # ss) =
     (let text = TrimSpace (el_Text s) in
      if text \<noteq> [] then text
      else (case el_content s of
              Some contentVal \<Rightarrow>
                if TrimSpace contentVal \<noteq> [] then TrimSpace contentVal else first_text ss
            | None \<Rightarrow> first_text ss))"

text \<open>
  The loop over the general selectors and \<^verbatim>\<open>ScrapePrice\<close>, again with the float parser as
  a parameter; \<open>ScrapePrice\<close> is the instance at the model \<open>ParseFloat\<close>.
\<close>

fun try_selectors :: "(string \<Rightarrow> parse_error + 'v) \<Rightarrow> document \<Rightarrow> string list \<Rightarrow> scrape_error + ('v \<times> string)" where
  "try_selectors pf doc [] = Inl CouldNotFindPrice"
| "try_selectors pf doc (selector # rest) =
     (let priceText = first_text (doc selector) in
      if priceText \<noteq> [] then
        (case ParsePriceString_with pf priceText of
           Inr price \<Rightarrow> Inr (price, selector)
         | Inl err \<Rightarrow> try_selectors pf doc rest)
      else try_selectors pf doc rest)"

definition ScrapePrice_with :: "(string \<Rightarrow> parse_error + 'v) \<Rightarrow> fetched \<Rightarrow> scrape_error + ('v \<times> string)" where
  "ScrapePrice_with pf res =
     (case res of
        NoResponse \<Rightarrow> Inl FailedToGetURL
      | Response code body \<Rightarrow>
          if code \<noteq> 200 then Inl (BadStatus code)
          else (case body of
                  None \<Rightarrow> Inl FailedToParseHTML
                | Some doc \<Rightarrow>
                    (let amazonPriceText = amazon_text doc in
                     if amazonPriceText \<noteq> [] then
                       (case ParsePriceString_with pf amazonPriceText of
                          Inr price \<Rightarrow> Inr (price, ''.a-price-whole (composite)'')
                        | Inl err \<Rightarrow> try_selectors pf doc commonSelectors)
                     else try_selectors pf doc commonSelectors)))"

definition ScrapePrice :: "fetched \<Rightarrow> scrape_error + (rat \<times> string)" where
  "ScrapePrice = ScrapePrice_with ParseFloat"

text \<open>\<^verbatim>\<open>ScrapePriceWithSelector\<close>: one named selector only. For the composite identifier the
  composite text is tried first; when it is empty the function goes on to look the
  identifier up as a selector.\<close>

definition ScrapePriceWithSelector :: "fetched \<Rightarrow> string \<Rightarrow> scrape_error + rat" where
  "ScrapePriceWithSelector res selector =
     (case res of
        NoResponse \<Rightarrow> Inl FailedToGetURL
      | Response code body \<Rightarrow>
          if code \<noteq> 200 then Inl (BadStatus code)
          else (case body of
                  None \<Rightarrow> Inl FailedToParseHTML
                | Some doc \<Rightarrow>
                    if selector = ''.a-price-whole (composite)'' \<and> amazon_text doc \<noteq> []
                    then ParsePriceString (amazon_text doc)
                    else (let priceText = first_text (doc selector) in
                          if priceText = [] then Inl (CouldNotFindWithSelector selector)
                          else ParsePriceString priceText)))"

text \<open>
  The strategy list in the words of the specification: the composite integer+fraction
  strategy first, then one strategy per general selector, in order. A strategy succeeds
  when its matched text is non-empty and the price parser (with the float parser \<open>pf\<close>)
  accepts it.
\<close>

datatype strategy = Composite | Generic string

definition strategies :: "strategy list" where
  "strategies = Composite # map Generic commonSelectors"

fun matched_text :: "document \<Rightarrow> strategy \<Rightarrow> string" where
  "matched_text doc Composite = amazon_text doc"
| "matched_text doc (Generic selector) = first_text (doc selector)"

fun strategy_id :: "strategy \<Rightarrow> string" where
  "strategy_id Composite = ''.a-price-whole (composite)''"
| "strategy_id (Generic selector) = selector"

definition succeeds :: "(string \<Rightarrow> parse_error + 'v) \<Rightarrow> document \<Rightarrow> strategy \<Rightarrow> bool" where
  "succeeds pf doc st =
     (matched_text doc st \<noteq> [] \<and> \<not> isl (ParsePriceString_with pf (matched_text doc st)))"

text \<open>
  A whole-number price text as sites print it: digits in groups separated by commas,
  beginning and ending with a digit.
\<close>

definition grouped_digits :: "string \<Rightarrow> bool" where
  "grouped_digits core =
     (core \<noteq> [] \<and> isDigit (hd core) \<and> isDigit (last core) \<and>
      list_all (\<lambda>c. isDigit c \<or> c = CHR '','') core)"

text \<open>The bytes of a plain numeral: digits, the point and the minus sign.\<close>

definition numeral_byte :: "char \<Rightarrow> bool" where
  "numeral_byte c = (isDigit c \<or> c = CHR ''.'' \<or> c = CHR ''-'')"

text \<open>Example documents: an element with only a text; the no-break space U+00A0; a
  whole-number element as Amazon prints it (white space around, a point at the end) with
  a fraction sibling, and a bare one without; a page on which two general selectors
  match, the first through its second element.\<close>

definition plain :: "string \<Rightarrow> element" where
  "plain t = \<lparr>el_Text = t, el_content = None, el_fraction_siblings = []\<rparr>"

definition nbsp :: string where
  "nbsp = [CHR 0xC2, CHR 0xA0]"

definition doc_whole_fraction :: document where
  "doc_whole_fraction sel =
     (if sel = ''.a-price-whole''
      then [\<lparr>el_Text = [CHR 0x0A] @ ''  1,234.'' @ [CHR 0x0A], el_content = None,
             el_fraction_siblings = ['' 99 '']\<rparr>]
      else [])"

definition doc_whole_only :: document where
  "doc_whole_only sel = (if sel = ''.a-price-whole'' then [plain ''1,234''] else [])"

definition doc_two_generic :: document where
  "doc_two_generic sel =
     (if sel = ''.price'' then [plain nbsp, plain ''$29.99'']
      else if sel = ''.product-price'' then [plain ''35.00'']
      else [])"

section \<open>tracker.go: StartMonitoring\<close>

text \<open>
  The \<^verbatim>\<open>Tracker\<close> struct, with its fields prefixed by \<open>t_\<close>. The push subscription is
  only handed to the push library and is left out; of \<^verbatim>\<open>StopChan\<close> the model keeps whether
  it has been closed.
\<close>

record Tracker =
  t_ID :: string
  t_URL :: string
  t_Selector :: string
  t_ThresholdPrice :: rat
  t_LastPrice :: rat
  t_StopChan_closed :: bool

text \<open>
  \<^verbatim>\<open>sendNotification\<close>. The outcome of \<^verbatim>\<open>webpush.SendNotification\<close> is an input: the push
  was sent (with the status of the response), or it failed, with or without a response.
  A notification is recorded by the two values formatted into its title and body, the
  price and the truncated URL (marshalling the payload, a map of strings, does not fail).
  On a failure with status 404 or 410 the stop channel is closed; closing a closed
  channel panics.
\<close>

datatype push_outcome = PushSent int | PushFailed "int option"

record notification =
  n_price :: rat
  n_url :: string

definition sendNotification ::
    "notification \<Rightarrow> push_outcome \<Rightarrow> Tracker \<times> notification list \<Rightarrow> go_panic + (Tracker \<times> notification list)" where
  "sendNotification n push ts =
     (case push of
        PushSent status \<Rightarrow> Inr (fst ts, snd ts @ [n])
      | PushFailed resp \<Rightarrow>
          (case resp of
             None \<Rightarrow> Inr ts
           | Some status \<Rightarrow>
               if status = 404 \<or> status = 410 then
                 (if t_StopChan_closed (fst ts) then Inl CloseOfClosedChannel
                  else Inr ((fst ts)\<lparr>t_StopChan_closed := True\<rparr>, snd ts))
               else Inr ts))"

text \<open>
  One iteration of the loop of \<^verbatim>\<open>StartMonitoring\<close> on a tick: the two page fetches (for
  the scrape by the stored selector and for the general scrape that follows its
  failure) and the push outcome are inputs. \<open>StartMonitoring\<close> runs the iterations of a
  list of ticks and returns early once the stop channel is closed.
\<close>

definition StartMonitoring_tick ::
    "fetched \<Rightarrow> fetched \<Rightarrow> push_outcome \<Rightarrow> Tracker \<times> notification list \<Rightarrow>
     go_panic + (Tracker \<times> notification list)" where
  "StartMonitoring_tick res1 res2 push ts =
     (let t = fst ts; delivered = snd ts;
          scraped =
            (case ScrapePriceWithSelector res1 (t_Selector t) of
               Inr currentPrice \<Rightarrow> Some (currentPrice, t)
             | Inl err \<Rightarrow>
                 (case ScrapePrice res2 of
                    Inl err \<Rightarrow> None
                  | Inr (currentPrice, newSelector) \<Rightarrow>
                      Some (currentPrice,
                            if newSelector \<noteq> t_Selector t \<and> newSelector \<noteq> []
                            then t\<lparr>t_Selector := newSelector\<rparr> else t)))
      in case scraped of
           None \<Rightarrow> Inr ts
         | Some (currentPrice, t) \<Rightarrow>
             if 0 < currentPrice \<and> currentPrice < t_LastPrice t \<and> currentPrice \<le> t_ThresholdPrice t
             then (case TruncateURL (t_URL t) 40 of
                     Inl p \<Rightarrow> Inl p
                   | Inr url \<Rightarrow>
                       (case sendNotification \<lparr>n_price = currentPrice, n_url = url\<rparr> push (t, delivered) of
                          Inl p \<Rightarrow> Inl p
                        | Inr (t', delivered') \<Rightarrow> Inr (t'\<lparr>t_LastPrice := currentPrice\<rparr>, delivered')))
             else if 0 < currentPrice
             then (if currentPrice \<noteq> t_LastPrice t then Inr (t\<lparr>t_LastPrice := currentPrice\<rparr>, delivered)
                   else Inr (t, delivered))
             else Inr (t, delivered))"

fun StartMonitoring ::
    "(fetched \<times> fetched \<times> push_outcome) list \<Rightarrow> Tracker \<times> notification list \<Rightarrow>
     go_panic + (Tracker \<times> notification list)" where
  "StartMonitoring [] ts = Inr ts"
| "StartMonitoring ((res1, res2, push) # ticks) ts =
     (if t_StopChan_closed (fst ts) then Inr ts
      else (case StartMonitoring_tick res1 res2 push ts of
              Inl p \<Rightarrow> Inl p
            | Inr ts' \<Rightarrow> StartMonitoring ticks ts'))"

section \<open>main.go: data, registry and subscribers\<close>

text \<open>
  The structs of \<^verbatim>\<open>main.go\<close>. Several of them have fields of the same name (\<^verbatim>\<open>URL\<close>,
  \<^verbatim>\<open>TargetPrice\<close>, \<^verbatim>\<open>ID\<close>), so each field carries a prefix for its struct:
  \<open>tr_\<close> for \<^verbatim>\<open>TrackingRequest\<close>, \<open>pc_\<close> for \<^verbatim>\<open>PriceCheckRequest\<close>, \<open>re_\<close> for
  \<^verbatim>\<open>PriceCheckResponse\<close> and \<open>pa_\<close> for \<^verbatim>\<open>PriceAlert\<close>.
\<close>

record TrackingRequest =
  tr_URL :: string
  tr_TargetPrice :: rat
  tr_ID :: string

record PriceCheckRequest =
  pc_URL :: string
  pc_TargetPrice :: rat

datatype message = InvalidURLOrTargetPrice | UnableToFetchPrice scrape_error | PriceCheckSuccessful

record PriceCheckResponse =
  re_CurrentPrice :: rat
  re_TargetPrice :: rat
  re_IsBelowTarget :: bool
  re_PriceString :: string
  re_Success :: bool
  re_Message :: message

record PriceAlert =
  pa_ID :: string
  pa_URL :: string
  pa_CurrentPrice :: rat
  pa_TargetPrice :: rat
  pa_PriceString :: string
  pa_Timestamp :: string

text \<open>
  A buffered channel \<^verbatim>\<open>chan PriceAlert\<close>: its queued alerts (oldest first), its capacity
  and whether it has been closed. \<^verbatim>\<open>handleWebSocket\<close> makes every client's channel with
  capacity 256.
\<close>

record chan =
  ch_buf :: "PriceAlert list"
  ch_cap :: nat
  ch_closed :: bool

text \<open>
  The package-level variables. A \<^verbatim>\<open>*Client\<close> is an address (a natural number); \<open>clients\<close>
  lists the keys of the map \<^verbatim>\<open>clients\<close> (a Go map has each key once, and \<^verbatim>\<open>range\<close> visits
  them in an arbitrary order: the order of the list). \<open>trackingItems\<close> is the map from ids
  to requests, as an association list with each key once. \<open>heap\<close> gives, for each
  client, the state of its \<^verbatim>\<open>send\<close> channel: the channel object outlives the client's
  removal from the map. The lock \<^verbatim>\<open>mu\<close> is not modelled: the handlers below run one at
  a time.
\<close>

record globals =
  clients :: "nat list"
  trackingItems :: "(string \<times> TrackingRequest) list"
  heap :: "nat \<Rightarrow> chan"

section \<open>main.go: scrapePrice\<close>

text \<open>
  The visit of the page by the collector is an input: it fails, or it calls the
  \<^verbatim>\<open>OnHTML\<close> callback on each matching element in turn, with the element's text. The
  callback keeps the first text that is non-empty once trimmed.
\<close>

datatype visit = VisitFailed | Visited "string list"

definition scrapePrice :: "visit \<Rightarrow> scrape_error + (string \<times> rat)" where
  "scrapePrice v =
     (case v of
        VisitFailed \<Rightarrow> Inl VisitError
      | Visited texts \<Rightarrow>
          (let priceString = foldl (\<lambda>priceString t. if priceString = [] then TrimSpace t else priceString) [] texts in
           if priceString = [] then Inl PriceNotFound
           else (let cleanPrice = ReplaceAll priceString '','' '''';
                     cleanPrice = ReplaceAll cleanPrice rupee '''';
                     cleanPrice = TrimSpace cleanPrice
                 in case ParseFloat cleanPrice of
                      Inl err \<Rightarrow> Inl (FailedToParsePrice priceString)
                    | Inr price \<Rightarrow> Inr (priceString, price))))"

section \<open>main.go: sending an alert to all clients\<close>

text \<open>
  \<^verbatim>\<open>
  for client := range clients {
      select {
      case client.send <- alert:
      default:
          close(client.send)
          delete(clients, client)
      }
  }
  \<close>
  A send on a closed channel panics. Otherwise the send succeeds when the buffer has
  room (no receiver is waiting in this sequential model); when it is full the
  \<^verbatim>\<open>default\<close> branch closes the channel and deletes the client.
\<close>

fun send_all :: "PriceAlert \<Rightarrow> nat list \<Rightarrow> globals \<Rightarrow> go_panic + globals" where
  "send_all alert [] g = Inr g"
| "send_all alert (client # rest) g =
     (let ch = heap g client in
      if ch_closed ch then Inl SendOnClosedChannel
      else if length (ch_buf ch) < ch_cap ch
      then send_all alert rest (g\<lparr>heap := (heap g)(client := ch\<lparr>ch_buf := ch_buf ch @ [alert]\<rparr>)\<rparr>)
      else send_all alert rest
             (g\<lparr>heap := (heap g)(client := ch\<lparr>ch_closed := True\<rparr>),
                clients := removeAll client (clients g)\<rparr>))"

definition broadcast :: "PriceAlert \<Rightarrow> globals \<Rightarrow> go_panic + globals" where
  "broadcast alert g = send_all alert (clients g) g"

section \<open>main.go: the handlers and the monitor\<close>

datatype reply = InvalidRequestBody | InvalidInput | TrackingStarted string | TrackingStopped

text \<open>\<^verbatim>\<open>trackPriceHandler\<close>; the decoded request body is \<open>None\<close> when the JSON decoder fails.\<close>

definition trackPriceHandler :: "TrackingRequest option \<Rightarrow> globals \<Rightarrow> reply \<times> globals" where
  "trackPriceHandler body g =
     (case body of
        None \<Rightarrow> (InvalidRequestBody, g)
      | Some req \<Rightarrow>
          if tr_URL req = [] \<or> tr_TargetPrice req \<le> 0 \<or> tr_ID req = [] then (InvalidInput, g)
          else (TrackingStarted (tr_ID req),
                g\<lparr>trackingItems := AList.update (tr_ID req) req (trackingItems g)\<rparr>))"

definition untrackPriceHandler :: "string option \<Rightarrow> globals \<Rightarrow> reply \<times> globals" where
  "untrackPriceHandler body g =
     (case body of
        None \<Rightarrow> (InvalidRequestBody, g)
      | Some req_ID \<Rightarrow> (TrackingStopped, g\<lparr>trackingItems := AList.delete req_ID (trackingItems g)\<rparr>))"

definition getTrackedItemsHandler :: "globals \<Rightarrow> TrackingRequest list" where
  "getTrackedItemsHandler g = map snd (trackingItems g)"

text \<open>
  \<^verbatim>\<open>checkAndNotify(id, item)\<close> works on the copy of the item that the monitor took from
  the map. The outcome of the visit and the timestamp are inputs.
\<close>

definition checkAndNotify ::
    "string \<Rightarrow> TrackingRequest \<Rightarrow> visit \<Rightarrow> string \<Rightarrow> globals \<Rightarrow> go_panic + globals" where
  "checkAndNotify item_id item v timestamp g =
     (case scrapePrice v of
        Inl err \<Rightarrow> Inr g
      | Inr (priceString, currentPrice) \<Rightarrow>
          if currentPrice \<le> tr_TargetPrice item then
            (case broadcast \<lparr>pa_ID = item_id, pa_URL = tr_URL item, pa_CurrentPrice = currentPrice,
                             pa_TargetPrice = tr_TargetPrice item, pa_PriceString = priceString,
                             pa_Timestamp = timestamp\<rparr> g of
               Inl p \<Rightarrow> Inl p
             | Inr g' \<Rightarrow> Inr (g'\<lparr>trackingItems := AList.delete item_id (trackingItems g')\<rparr>))
          else Inr g)"

text \<open>\<^verbatim>\<open>fmt.Sprintf("%d", n)\<close> for a signed integer.\<close>

function itoa_pos :: "int \<Rightarrow> string" where
  "itoa_pos n =
     (if n < 10 then [''0123456789'' ! nat n]
      else itoa_pos (n div 10) @ [''0123456789'' ! nat (n mod 10)])"
  by pat_completeness auto
termination
  by (relation "measure nat") auto

declare itoa_pos.simps [simp del]

definition itoa :: "int \<Rightarrow> string" where
  "itoa n = (if n < 0 then CHR ''-'' # itoa_pos (- n) else itoa_pos n)"

text \<open>
  \<^verbatim>\<open>checkPriceHandler\<close>. The Unix time read for the temporary id and the formatted
  timestamp are inputs. The goroutine that sends the immediate alert is run before the
  handler's reply is returned; a panic in it ends the program.
\<close>

datatype check_reply = CheckInvalidRequestBody | CheckReply PriceCheckResponse

definition checkPriceHandler ::
    "PriceCheckRequest option \<Rightarrow> visit \<Rightarrow> int \<Rightarrow> string \<Rightarrow> globals \<Rightarrow> go_panic + (check_reply \<times> globals)" where
  "checkPriceHandler body v unix_now timestamp g =
     (case body of
        None \<Rightarrow> Inr (CheckInvalidRequestBody, g)
      | Some req \<Rightarrow>
          if pc_URL req = [] \<or> pc_TargetPrice req \<le> 0 then
            Inr (CheckReply \<lparr>re_CurrentPrice = 0, re_TargetPrice = 0, re_IsBelowTarget = False,
                             re_PriceString = [], re_Success = False,
                             re_Message = InvalidURLOrTargetPrice\<rparr>, g)
          else
            (case scrapePrice v of
               Inl err \<Rightarrow>
                 Inr (CheckReply \<lparr>re_CurrentPrice = 0, re_TargetPrice = 0, re_IsBelowTarget = False,
                                  re_PriceString = [], re_Success = False,
                                  re_Message = UnableToFetchPrice err\<rparr>, g)
             | Inr (priceString, currentPrice) \<Rightarrow>
                 (let isBelowTarget = (currentPrice \<le> pc_TargetPrice req);
                      response = \<lparr>re_CurrentPrice = currentPrice, re_TargetPrice = pc_TargetPrice req,
                                  re_IsBelowTarget = isBelowTarget, re_PriceString = priceString,
                                  re_Success = True, re_Message = PriceCheckSuccessful\<rparr>
                  in if isBelowTarget then
                       (case broadcast \<lparr>pa_ID = ''check-'' @ itoa unix_now, pa_URL = pc_URL req,
                                        pa_CurrentPrice = currentPrice,
                                        pa_TargetPrice = pc_TargetPrice req,
                                        pa_PriceString = priceString,
                                        pa_Timestamp = timestamp\<rparr> g of
                          Inl p \<Rightarrow> Inl p
                        | Inr g' \<Rightarrow> Inr (CheckReply response, g'))
                     else Inr (CheckReply response, g))))"

text \<open>
  \<^verbatim>\<open>monitorPrices\<close> and the checks it starts. On every tick the monitor starts one goroutine
  \<^verbatim>\<open>checkAndNotify(id, item)\<close> for each entry of the map, unconditionally. The system state
  is the globals together with the checks that have been started and have not finished
  yet, each with the id and the copy of the item that it was started with. The events are
  a tick of the monitor, the completion of the \<open>k\<close>-th check in flight (with the outcome
  of its visit and its timestamp), and the track and untrack requests. A check runs as one
  step, at its completion.
\<close>

record system =
  glob :: globals
  in_flight :: "(string \<times> TrackingRequest) list"

datatype event =
    Tick
  | Finish nat visit string
  | Track "TrackingRequest option"
  | Untrack "string option"

definition monitor_tick :: "system \<Rightarrow> system" where
  "monitor_tick s = s\<lparr>in_flight := in_flight s @ trackingItems (glob s)\<rparr>"

fun step :: "event \<Rightarrow> system \<Rightarrow> go_panic + system" where
  "step Tick s = Inr (monitor_tick s)"
| "step (Finish k v timestamp) s =
     (if k < length (in_flight s) then
        (case checkAndNotify (fst (in_flight s ! k)) (snd (in_flight s ! k)) v timestamp (glob s) of
           Inl p \<Rightarrow> Inl p
         | Inr g \<Rightarrow> Inr \<lparr>glob = g, in_flight = take k (in_flight s) @ drop (Suc k) (in_flight s)\<rparr>)
      else Inr s)"
| "step (Track body) s = Inr (s\<lparr>glob := snd (trackPriceHandler body (glob s))\<rparr>)"
| "step (Untrack body) s = Inr (s\<lparr>glob := snd (untrackPriceHandler body (glob s))\<rparr>)"

fun run :: "event list \<Rightarrow> system \<Rightarrow> go_panic + system" where
  "run [] s = Inr s"
| "run (e # es) s = (case step e s of Inl p \<Rightarrow> Inl p | Inr s' \<Rightarrow> run es s')"

section \<open>Auxiliary notions and example states\<close>

text \<open>An alert, and three subscribers with channels of capacity 2, of which the second
  is full.\<close>

definition alert0 :: PriceAlert where
  "alert0 = \<lparr>pa_ID = ''a'', pa_URL = ''https://www.amazon.in/dp/1'', pa_CurrentPrice = 95,
             pa_TargetPrice = 100, pa_PriceString = ''95'', pa_Timestamp = ''2025-01-01T00:00:00Z''\<rparr>"

definition hub3 :: globals where
  "hub3 = \<lparr>clients = [1, 2, 3], trackingItems = [],
           heap = (\<lambda>c. if c = 2 then \<lparr>ch_buf = [alert0, alert0], ch_cap = 2, ch_closed = False\<rparr>
                        else if c = 1 then \<lparr>ch_buf = [alert0], ch_cap = 2, ch_closed = False\<rparr>
                        else \<lparr>ch_buf = [], ch_cap = 2, ch_closed = False\<rparr>)\<rparr>"

text \<open>A channel has room when a send on it does not block; \<open>sent\<close> is the effect of
  one iteration of the sending loop on a client's channel.\<close>

definition has_room :: "chan \<Rightarrow> bool" where
  "has_room ch = (length (ch_buf ch) < ch_cap ch)"

definition sent :: "PriceAlert \<Rightarrow> chan \<Rightarrow> chan" where
  "sent alert ch = (if has_room ch then ch\<lparr>ch_buf := ch_buf ch @ [alert]\<rparr> else ch\<lparr>ch_closed := True\<rparr>)"

text \<open>Tracking requests, and a state with one tracked item and one subscriber.\<close>

definition item_a :: TrackingRequest where
  "item_a = \<lparr>tr_URL = ''https://www.amazon.in/dp/1'', tr_TargetPrice = 100, tr_ID = ''a''\<rparr>"

definition item_a2 :: TrackingRequest where
  "item_a2 = \<lparr>tr_URL = ''https://www.amazon.in/dp/2'', tr_TargetPrice = 50, tr_ID = ''a''\<rparr>"

definition item_b :: TrackingRequest where
  "item_b = \<lparr>tr_URL = ''https://www.amazon.in/dp/3'', tr_TargetPrice = 20, tr_ID = ''b''\<rparr>"

definition g_one :: globals where
  "g_one = \<lparr>clients = [7], trackingItems = [(''a'', item_a)],
            heap = (\<lambda>c. \<lparr>ch_buf = [], ch_cap = 256, ch_closed = False\<rparr>)\<rparr>"

text \<open>A one-shot check request.\<close>

definition check_req :: PriceCheckRequest where
  "check_req = \<lparr>pc_URL = ''https://www.amazon.in/dp/1'', pc_TargetPrice = 100\<rparr>"

text \<open>The system with one tracked item, one subscriber and no check in flight.\<close>

definition sys_one :: system where
  "sys_one = \<lparr>glob = g_one, in_flight = []\<rparr>"

text \<open>A run is paced when each tick fires only after all checks in flight have finished.\<close>

fun paced :: "event list \<Rightarrow> system \<Rightarrow> bool" where
  "paced [] s = True"
| "paced (e # es) s =
     ((if e = Tick then in_flight s = [] else True) \<and>
      (case step e s of Inl p \<Rightarrow> True | Inr s' \<Rightarrow> paced es s'))"

definition keys_distinct :: "system \<Rightarrow> bool" where
  "keys_distinct s = (distinct (map fst (trackingItems (glob s))) \<and> distinct (map fst (in_flight s)))"

text \<open>The alerts for an id in a channel's queue; the events that track an id; the ids in
  the registry; an id with neither an entry in the registry nor a check in flight; the
  ids of the alerts queued for a client after a run.\<close>

definition alerts_for :: "string \<Rightarrow> chan \<Rightarrow> PriceAlert list" where
  "alerts_for i ch = filter (\<lambda>a. pa_ID a = i) (ch_buf ch)"

fun tracks :: "string \<Rightarrow> event \<Rightarrow> bool" where
  "tracks i (Track (Some req)) = (tr_ID req = i)"
| "tracks i e = False"

definition tracked_ids :: "globals \<Rightarrow> string set" where
  "tracked_ids g = set (map fst (trackingItems g))"

definition queued_ids :: "nat \<Rightarrow> go_panic + system \<Rightarrow> string list option" where
  "queued_ids c r = (case r of Inl p \<Rightarrow> None | Inr s \<Rightarrow> Some (map pa_ID (ch_buf (heap (glob s) c))))"

definition retired :: "string \<Rightarrow> system \<Rightarrow> bool" where
  "retired i s = (i \<notin> tracked_ids (glob s) \<and> i \<notin> fst ` set (in_flight s))"

text \<open>A page with one price element, and a tracker whose last price is above its threshold.\<close>

definition page :: "string \<Rightarrow> fetched" where
  "page price = Response 200 (Some (\<lambda>sel. if sel = ''.price'' then [plain price] else []))"

definition tracker_a :: Tracker where
  "tracker_a = \<lparr>t_ID = ''a'', t_URL = ''https://shop.example/item/1'', t_Selector = ''.price'',
                 t_ThresholdPrice = 100, t_LastPrice = 120, t_StopChan_closed = False\<rparr>"

section \<open>Properties of TruncateURL\<close>

lemma sint_sub3_nowrap:
  fixes m :: "64 word"
  assumes "- (2 ^ 63) + 3 \<le> sint m"
  shows "sint (m - 3) = sint m - 3"
proof -
  have u: "sint m < 2 ^ 63" using sint_lt [of m] by simp
  have "sint (m - 3) = signed_take_bit 63 (sint m - sint (3 :: 64 word))"
    by (simp add: sint_word_ariths)
  also have "sint (3 :: 64 word) = 3" by simp
  finally have "sint (m - 3) = signed_take_bit 63 (sint m - 3)" by simp
  moreover have "signed_take_bit 63 (sint m - 3) = sint m - 3"
    using assms u by (simp add: signed_take_bit_int_eq_self)
  ultimately show ?thesis by simp
qed

lemma sint_sub3_wrap:
  fixes m :: "64 word"
  assumes "sint m < - (2 ^ 63) + 3"
  shows "sint (m - 3) = sint m - 3 + 2 ^ 64"
proof -
  have l: "- (2 ^ 63) \<le> sint m" using sint_ge [of m] by simp
  have "sint (m - 3) = signed_take_bit 63 (sint m - sint (3 :: 64 word))"
    by (simp add: sint_word_ariths)
  also have "sint (3 :: 64 word) = 3" by simp
  finally have a: "sint (m - 3) = signed_take_bit 63 (sint m - 3)" by simp
  have "signed_take_bit 63 (sint m - 3) = signed_take_bit 63 (sint m - 3 + 2 ^ 64)"
  proof -
    have "(sint m - 3 + 2 ^ 64) mod 2 ^ 64 = (sint m - 3) mod (2 ^ 64 :: int)"
      by (rule mod_add_self2)
    then have "take_bit (Suc 63) (sint m - 3) = take_bit (Suc 63) (sint m - 3 + 2 ^ 64)"
      by (simp only: take_bit_eq_mod) simp
    then show ?thesis
      by (simp only: signed_take_bit_eq_iff_take_bit_eq)
  qed
  moreover have "signed_take_bit 63 (sint m - 3 + 2 ^ 64) = sint m - 3 + 2 ^ 64"
    using assms l by (simp add: signed_take_bit_int_eq_self)
  ultimately show ?thesis using a by simp
qed

text \<open>
  C9: a URL no longer than \<open>maxLen\<close> is returned unchanged; a longer one, when
  \<open>maxLen \<ge> 3\<close>, is cut to exactly \<open>maxLen\<close> bytes ending in \<^verbatim>\<open>...\<close>; a longer one with
  \<open>maxLen < 3\<close> makes the slice \<^verbatim>\<open>urlStr[:maxLen-3]\<close> panic, so the function is not total
  without \<open>maxLen \<ge> 3\<close>. (The last part holds for every string shorter than \<open>2^63 - 3\<close>
  bytes, which every Go string is in practice: at the three smallest values of
  \<open>maxLen\<close> the subtraction wraps around to a huge positive bound.)
\<close>

theorem TruncateURL_cases:
  "(int (length urlStr) \<le> sint maxLen \<longrightarrow> TruncateURL urlStr maxLen = Inr urlStr) \<and>
   (sint maxLen < int (length urlStr) \<and> 3 \<le> sint maxLen \<longrightarrow>
      (\<exists>r. TruncateURL urlStr maxLen = Inr r \<and> int (length r) = sint maxLen \<and> suffix ''...'' r)) \<and>
   (sint maxLen < int (length urlStr) \<and> sint maxLen < 3 \<and> int (length urlStr) < 2 ^ 63 - 3 \<longrightarrow>
      TruncateURL urlStr maxLen = Inl SliceBoundsOutOfRange)"
proof (intro conjI impI)
  assume "int (length urlStr) \<le> sint maxLen"
  then show "TruncateURL urlStr maxLen = Inr urlStr" by (simp add: TruncateURL_def)
next
  assume a: "sint maxLen < int (length urlStr) \<and> 3 \<le> sint maxLen"
  then have s: "sint (maxLen - 3) = sint maxLen - 3" by (simp add: sint_sub3_nowrap)
  let ?r = "take (nat (sint maxLen - 3)) urlStr @ ''...''"
  have "TruncateURL urlStr maxLen = Inr ?r" using a s by (simp add: TruncateURL_def)
  moreover have "nat (sint maxLen - 3) \<le> length urlStr" using a by linarith
  then have "int (length ?r) = sint maxLen" using a by (simp add: min_absorb2)
  moreover have "suffix ''...'' ?r" by (rule suffix_appendI) simp
  ultimately show "\<exists>r. TruncateURL urlStr maxLen = Inr r \<and> int (length r) = sint maxLen \<and> suffix ''...'' r"
    by blast
next
  assume a: "sint maxLen < int (length urlStr) \<and> sint maxLen < 3 \<and> int (length urlStr) < 2 ^ 63 - 3"
  show "TruncateURL urlStr maxLen = Inl SliceBoundsOutOfRange"
  proof (cases "- (2 ^ 63) + 3 \<le> sint maxLen")
    case True
    then have "sint (maxLen - 3) = sint maxLen - 3" by (rule sint_sub3_nowrap)
    then show ?thesis using a by (simp add: TruncateURL_def)
  next
    case False
    then have w: "sint (maxLen - 3) = sint maxLen - 3 + 2 ^ 64" by (simp add: sint_sub3_wrap)
    have "- (2 ^ 63) \<le> sint maxLen" using sint_ge [of maxLen] by simp
    then show ?thesis using a w by (simp add: TruncateURL_def)
  qed
qed

theorem TruncateURL_cases_witness:
  "int (length ''abc'') \<le> sint (5 :: 64 word) \<and> TruncateURL ''abc'' 5 = Inr ''abc'' \<and>
   sint (10 :: 64 word) < int (length ''https://example.com/item'') \<and> 3 \<le> sint (10 :: 64 word) \<and>
   TruncateURL ''https://example.com/item'' 10 = Inr ''https:/...'' \<and>
   sint (2 :: 64 word) < int (length ''abcd'') \<and> sint (2 :: 64 word) < 3 \<and>
   TruncateURL ''abcd'' 2 = Inl SliceBoundsOutOfRange"
  using TruncateURL_cases [of "''abc''" 5] TruncateURL_cases [of "''https://example.com/item''" 10]
    TruncateURL_cases [of "''abcd''" 2]
  by (simp add: TruncateURL_def)

section \<open>Properties of ParsePriceString\<close>

lemma float64_overflow_eq: "float64_overflow = 2 ^ 1024 - 2 ^ 970"
  by (simp add: float64_overflow_def)

text \<open>A one-byte pattern that the replacer deletes does not occur in its output.\<close>

lemma Replace_removes:
  assumes "([c], []) \<in> set ps" and "\<forall>p\<in>set ps. c \<notin> set (snd p)"
  shows "c \<notin> set (Replace ps s)"
  using assms
proof (induction ps s rule: Replace.induct)
  case (1 ps s)
  show ?case
  proof (cases "s = []")
    case True
    then show ?thesis by (simp add: Replace.simps [of ps "[]"])
  next
    case False
    show ?thesis
    proof (cases "find (match_pair s) ps")
      case None
      have "hd s \<noteq> c"
      proof
        assume "hd s = c"
        with False have "match_pair s ([c], [])"
          by (cases s) (simp_all add: match_pair_def)
        with "1.prems"(1) None show False by (auto simp: find_None_iff)
      qed
      moreover have "c \<notin> set (Replace ps (tl s))"
        using "1.IH"(1) [OF False None] "1.prems" by simp
      ultimately show ?thesis using False None by (simp add: Replace.simps [of ps s])
    next
      case (Some p)
      then have "p \<in> set ps" by (auto simp: find_Some_iff)
      then have "c \<notin> set (snd p)" using "1.prems"(2) by blast
      moreover have "c \<notin> set (Replace ps (drop (length (fst p)) s))"
        using "1.IH"(2) [OF False Some] "1.prems" by simp
      ultimately show ?thesis using False Some by (simp add: Replace.simps [of ps s])
    qed
  qed
qed

text \<open>
  The replacer deletes every comma before the locale test runs, so the cleaned string
  never contains one: both branches of the locale test are dead, and the parser is the
  float parser applied to the cleaned string.
\<close>

lemma replacer_no_comma: "CHR '','' \<notin> set (replacer s)"
  unfolding replacer_def by (rule Replace_removes) simp_all

lemma ParsePriceString_with_eq:
  "ParsePriceString_with pf s =
     (case pf (replacer s) of
        Inl err \<Rightarrow> Inl (CouldNotParseAsFloat s (replacer s))
      | Inr price \<Rightarrow> Inr price)"
  by (simp add: ParsePriceString_with_def Let_def Contains_byte_def replacer_no_comma)

text \<open>A string without the first byte of any pattern is left unchanged.\<close>

lemma Replace_unchanged:
  assumes "\<forall>p\<in>set ps. fst p \<noteq> [] \<longrightarrow> hd (fst p) \<notin> set s"
  shows "Replace ps s = s"
  using assms
proof (induction s)
  case Nil
  then show ?case by (simp add: Replace.simps [of ps "[]"])
next
  case (Cons x xs)
  have "find (match_pair (x # xs)) ps = None"
  proof -
    have "\<not> match_pair (x # xs) p" if "p \<in> set ps" for p
    proof
      assume m: "match_pair (x # xs) p"
      then obtain y ys where f: "fst p = y # ys" by (cases "fst p") (auto simp: match_pair_def)
      with m have "y = x" by (simp add: match_pair_def)
      with f Cons.prems that show False by auto
    qed
    then show ?thesis by (auto simp: find_None_iff)
  qed
  moreover have "Replace ps xs = xs" using Cons by simp
  ultimately show ?case by (simp add: Replace.simps [of ps "x # xs"])
qed

text \<open>Digits, the point and the minus sign are none of the bytes that the replacer looks
  for, so a numeral is its own cleaned string.\<close>

lemma numeral_byte_plain:
  assumes "numeral_byte c"
  shows "c \<noteq> CHR ''$''" and "c \<noteq> CHR 0xE2" and "c \<noteq> CHR 0xC2" and "c \<noteq> CHR '',''"
    and "c \<noteq> CHR '' ''"
  using assms unfolding numeral_byte_def isDigit_def by (elim disjE; simp)+

lemma replacer_numeral:
  assumes "list_all numeral_byte s"
  shows "replacer s = s"
  unfolding replacer_def
proof (rule Replace_unchanged)
  have d: "\<forall>c\<in>set s. numeral_byte c" using assms by (simp add: list_all_iff)
  have "CHR ''$'' \<notin> set s" using d numeral_byte_plain(1) by blast
  moreover have "CHR 0xE2 \<notin> set s" using d numeral_byte_plain(2) by blast
  moreover have "CHR 0xC2 \<notin> set s" using d numeral_byte_plain(3) by blast
  moreover have "CHR '','' \<notin> set s" using d numeral_byte_plain(4) by blast
  moreover have "CHR '' '' \<notin> set s" using d numeral_byte_plain(5) by blast
  ultimately show "\<forall>p\<in>set [(''$'', ''''), (euro, ''''), (pound, ''''), (rupee, ''''), ('','', ''''), ('' '', '''')].
       fst p \<noteq> [] \<longrightarrow> hd (fst p) \<notin> set s"
    by (simp add: euro_def pound_def rupee_def)
qed

lemma ParsePriceString_with_numeral:
  assumes "list_all numeral_byte s"
  shows "ParsePriceString_with pf s =
           (case pf s of Inl err \<Rightarrow> Inl (CouldNotParseAsFloat s s) | Inr price \<Rightarrow> Inr price)"
  by (simp only: ParsePriceString_with_eq replacer_numeral [OF assms])

text \<open>
  C3, at the European input of the claim: \<^verbatim>\<open>"1.234,56"\<close> is parsed as 1.23456, not as
  1234.56. The comma is deleted first, which leaves \<^verbatim>\<open>"1.23456"\<close>; the European swap that
  the source's comment announces for this very input never runs. The two other inputs
  of the claim, \<^verbatim>\<open>"60,100"\<close> and \<^verbatim>\<open>"29.99"\<close>, are parsed as the claim says.
\<close>

theorem ParsePriceString_european:
  "ParsePriceString ''1.234,56'' = Inr (123456 / 100000) \<and>
   ParsePriceString ''1.234,56'' \<noteq> Inr (123456 / 100) \<and>
   ParsePriceString ''60,100'' = Inr 60100 \<and>
   ParsePriceString ''29.99'' = Inr (2999 / 100)"
proof -
  have "ParsePriceString ''1.234,56'' = Inr (123456 / 100000)" by code_simp
  moreover have "ParsePriceString ''60,100'' = Inr 60100" by code_simp
  moreover have "ParsePriceString ''29.99'' = Inr (2999 / 100)" by code_simp
  ultimately show ?thesis by simp
qed

text \<open>
  C4, as the code has it, for every float parser \<open>pf\<close> in the place of
  \<^verbatim>\<open>strconv.ParseFloat\<close>: the price parser fails exactly when the float parser rejects the
  cleaned string, and otherwise returns the float parser's value as it is, whatever its
  sign, for the source has no sign check. A minus sign followed by digits is its own
  cleaned string, so for such an input the result is the float parser's result on the
  input itself.
\<close>

theorem ParsePriceString_no_sign_check:
  "ParsePriceString_with pf s =
     (case pf (replacer s) of
        Inl err \<Rightarrow> Inl (CouldNotParseAsFloat s (replacer s))
      | Inr price \<Rightarrow> Inr price) \<and>
   (list_all isDigit ds \<longrightarrow>
      replacer (CHR ''-'' # ds) = CHR ''-'' # ds \<and>
      ParsePriceString_with pf (CHR ''-'' # ds) =
        (case pf (CHR ''-'' # ds) of
           Inl err \<Rightarrow> Inl (CouldNotParseAsFloat (CHR ''-'' # ds) (CHR ''-'' # ds))
         | Inr price \<Rightarrow> Inr price))"
proof (intro conjI impI)
  show "ParsePriceString_with pf s =
     (case pf (replacer s) of
        Inl err \<Rightarrow> Inl (CouldNotParseAsFloat s (replacer s))
      | Inr price \<Rightarrow> Inr price)"
    by (rule ParsePriceString_with_eq)
next
  assume "list_all isDigit ds"
  then have n: "list_all numeral_byte (CHR ''-'' # ds)"
    by (simp add: numeral_byte_def list_all_iff)
  show "replacer (CHR ''-'' # ds) = CHR ''-'' # ds" using n by (rule replacer_numeral)
  show "ParsePriceString_with pf (CHR ''-'' # ds) =
        (case pf (CHR ''-'' # ds) of
           Inl err \<Rightarrow> Inl (CouldNotParseAsFloat (CHR ''-'' # ds) (CHR ''-'' # ds))
         | Inr price \<Rightarrow> Inr price)"
    using n by (rule ParsePriceString_with_numeral)
qed

theorem ParsePriceString_no_sign_check_witness:
  "list_all isDigit ''499'' \<and> replacer ''-499'' = ''-499'' \<and> ParseFloat ''-499'' = Inr (- 499) \<and>
   ParsePriceString_with ParseFloat ''-499'' = Inr (- 499)"
proof -
  have h: "list_all isDigit ''499''" by code_simp
  have p: "ParseFloat ''-499'' = Inr (- 499)" by code_simp
  from ParsePriceString_no_sign_check [of ParseFloat "''-499''" "''499''", THEN conjunct2] h p
  show ?thesis by simp
qed

text \<open>The claim C4 as stated fails at the input \<^verbatim>\<open>"-5"\<close>, which is parsed successfully as the
  negative value -5.\<close>

theorem ParsePriceString_negative_counterexample:
  "ParsePriceString ''-5'' = Inr (- 5) \<and> (- 5 :: rat) < 0"
proof -
  have "ParsePriceString ''-5'' = Inr (- 5)" by code_simp
  then show ?thesis by simp
qed


section \<open>Properties of TrimSpace, ReplaceAll and TrimSuffix\<close>

text \<open>White space is stripped up to the first byte that begins no white space rune.\<close>

lemma starts_with_none:
  assumes "\<forall>w\<in>set ws. w \<noteq> [] \<longrightarrow> hd w \<noteq> c"
  shows "starts_with_one_of ws (c # s) = None"
proof -
  have "\<not> (w \<noteq> [] \<and> prefix w (c # s))" if "w \<in> set ws" for w
  proof
    assume a: "w \<noteq> [] \<and> prefix w (c # s)"
    then obtain y ys where w: "w = y # ys" by (cases w) auto
    with a have "y = c" by simp
    with w that assms show False by auto
  qed
  then show ?thesis by (auto simp: starts_with_one_of_def find_None_iff)
qed

lemma trim_left_stops:
  assumes "\<forall>w\<in>set ws. w \<noteq> [] \<longrightarrow> hd w \<noteq> c"
  shows "trim_left ws (c # s) = c # s"
  by (simp add: trim_left.simps [of ws "c # s"] starts_with_none [OF assms])

lemma starts_with_ascii:
  assumes "asciiSpace c"
  shows "starts_with_one_of space_runes (c # s) = Some [c]"
    and "starts_with_one_of (map rev space_runes) (c # s) = Some [c]"
  using assms unfolding asciiSpace_def
  by (elim disjE; simp add: starts_with_one_of_def space_runes_def)+

lemma trim_left_ascii:
  assumes "list_all asciiSpace pre"
  shows "trim_left space_runes (pre @ s) = trim_left space_runes s"
    and "trim_left (map rev space_runes) (pre @ s) = trim_left (map rev space_runes) s"
  using assms
proof (induction pre)
  case Nil
  { case 1 show ?case by simp }
  { case 2 show ?case by simp }
next
  case (Cons c pre)
  { case 1
    then have c: "asciiSpace c" and p: "list_all asciiSpace pre" by simp_all
    show ?case
      using Cons.IH(1) [OF p]
      by (simp add: trim_left.simps [of space_runes "c # pre @ s"] starts_with_ascii(1) [OF c]) }
  { case 2
    then have c: "asciiSpace c" and p: "list_all asciiSpace pre" by simp_all
    show ?case
      using Cons.IH(2) [OF p]
      by (simp add: trim_left.simps [of "map rev space_runes" "c # pre @ s"] starts_with_ascii(2) [OF c]) }
qed

text \<open>A digit or a point is neither the first nor the last byte of a white space rune.\<close>

lemma numeral_byte_no_space:
  assumes "isDigit c \<or> c = CHR ''.''"
  shows "\<forall>w\<in>set space_runes. w \<noteq> [] \<longrightarrow> hd w \<noteq> c"
    and "\<forall>w\<in>set (map rev space_runes). w \<noteq> [] \<longrightarrow> hd w \<noteq> c"
  using assms unfolding isDigit_def
  by (simp_all only: set_simps insert_iff empty_iff, (elim disjE; simp add: space_runes_def)+)

lemma TrimSpace_core:
  assumes "list_all asciiSpace pre" and "list_all asciiSpace post"
    and "core \<noteq> []"
    and "isDigit (hd core) \<or> hd core = CHR ''.''"
    and "isDigit (last core) \<or> last core = CHR ''.''"
  shows "TrimSpace (pre @ core @ post) = core"
proof -
  obtain a m where core: "core = a # m" using assms(3) by (cases core) auto
  have a: "isDigit a \<or> a = CHR ''.''" using assms(4) core by simp
  have "trim_left space_runes (pre @ core @ post) = trim_left space_runes (core @ post)"
    using assms(1) by (rule trim_left_ascii(1))
  also have "\<dots> = core @ post"
    unfolding core using numeral_byte_no_space(1) [OF a] by (simp add: trim_left_stops)
  finally have l: "trim_left space_runes (pre @ core @ post) = core @ post" .
  obtain b n where rc: "rev core = b # n" using assms(3) by (cases "rev core") auto
  then have "b = last core" by (metis assms(3) last_rev list.sel(1) rev_rev_ident hd_rev)
  then have b: "isDigit b \<or> b = CHR ''.''" using assms(5) by simp
  have "trim_left (map rev space_runes) (rev (core @ post)) =
        trim_left (map rev space_runes) (rev post @ rev core)" by simp
  also have "\<dots> = trim_left (map rev space_runes) (rev core)"
    using assms(2) by (intro trim_left_ascii(2)) simp
  also have "\<dots> = rev core"
    unfolding rc using numeral_byte_no_space(2) [OF b] by (simp add: trim_left_stops)
  finally show ?thesis by (simp add: TrimSpace_def l)
qed

text \<open>Replacing a byte by nothing filters it out.\<close>

lemma Replace_delete_byte: "Replace [([c], [])] s = filter (\<lambda>x. x \<noteq> c) s"
proof (induction s)
  case Nil
  show ?case by (simp add: Replace.simps [of _ "[]"])
next
  case (Cons x xs)
  show ?case
  proof (cases "x = c")
    case True
    have "Replace [([c], [])] (c # xs) = Replace [([c], [])] xs"
      by (simp add: Replace.simps [of _ "c # xs"] match_pair_def)
    with Cons True show ?thesis by simp
  next
    case False
    then have "Replace [([c], [])] (x # xs) = x # Replace [([c], [])] xs"
      by (simp add: Replace.simps [of _ "x # xs"] match_pair_def)
    with Cons False show ?thesis by simp
  qed
qed

lemma ReplaceAll_comma: "ReplaceAll s '','' '''' = filter (\<lambda>x. x \<noteq> CHR '','') s"
  by (simp add: ReplaceAll_def Replace_delete_byte)

lemma TrimSuffix_point:
  assumes "ds \<noteq> []" and "last ds \<noteq> CHR ''.''" and "dot = [] \<or> dot = ''.''"
  shows "TrimSuffix (ds @ dot) ''.'' = ds"
proof (cases "dot = []")
  case True
  have "\<not> suffix ''.'' ds"
  proof
    assume "suffix ''.'' ds"
    then obtain zs where "ds = zs @ ''.''" by (auto simp: suffix_def)
    with assms(2) show False by simp
  qed
  with True show ?thesis by (simp add: TrimSuffix_def)
next
  case False
  with assms(3) have "dot = ''.''" by simp
  then show ?thesis by (simp add: TrimSuffix_def)
qed

section \<open>Properties of ScrapePrice\<close>

text \<open>The loop over the general selectors returns the first selector that succeeds.\<close>

lemma try_selectors_first:
  assumes "i < length sels"
    and "first_text (doc (sels ! i)) \<noteq> []"
    and "ParsePriceString_with pf (first_text (doc (sels ! i))) = Inr p"
    and "\<forall>j<i. \<not> succeeds pf doc (Generic (sels ! j))"
  shows "try_selectors pf doc sels = Inr (p, sels ! i)"
  using assms
proof (induction sels arbitrary: i)
  case Nil
  then show ?case by simp
next
  case (Cons sel rest)
  show ?case
  proof (cases i)
    case 0
    with Cons.prems show ?thesis by (simp add: Let_def)
  next
    case (Suc k)
    have k: "k < length rest" using Cons.prems(1) Suc by simp
    have "\<not> succeeds pf doc (Generic sel)" using Cons.prems(4) Suc by auto
    then have skip: "try_selectors pf doc (sel # rest) = try_selectors pf doc rest"
      by (auto simp: succeeds_def Let_def split: sum.splits)
    have "\<forall>j<k. \<not> succeeds pf doc (Generic (rest ! j))"
    proof (intro allI impI)
      fix j assume "j < k"
      then have "Suc j < i" using Suc by simp
      with Cons.prems(4) have "\<not> succeeds pf doc (Generic ((sel # rest) ! Suc j))" by blast
      then show "\<not> succeeds pf doc (Generic (rest ! j))" by simp
    qed
    with Cons.IH [OF k] Cons.prems(2,3) Suc have "try_selectors pf doc rest = Inr (p, rest ! k)"
      by simp
    with skip Suc show ?thesis by simp
  qed
qed

text \<open>
  C5, for every float parser \<open>pf\<close> in the place of \<^verbatim>\<open>strconv.ParseFloat\<close>: when several
  strategies would yield a value that the parser accepts, \<open>ScrapePrice\<close> returns the
  result of the earliest one in the priority order (composite first, then the general
  selectors in their order) and never a later one: if strategy \<open>i\<close> matches a non-empty
  text that the parser accepts and no earlier strategy succeeds, the result is the price
  and the identifier of strategy \<open>i\<close>, whatever the later strategies match. A strategy
  succeeds exactly when its matched text is non-empty and the price parser accepts it.
\<close>

theorem ScrapePrice_earliest_strategy:
  assumes "i < length strategies"
    and "matched_text doc (strategies ! i) \<noteq> []"
    and "ParsePriceString_with pf (matched_text doc (strategies ! i)) = Inr p"
    and "\<forall>j<i. \<not> succeeds pf doc (strategies ! j)"
  shows "ScrapePrice_with pf (Response 200 (Some doc)) = Inr (p, strategy_id (strategies ! i))"
proof (cases i)
  case 0
  with assms(2,3) show ?thesis by (simp add: ScrapePrice_with_def strategies_def Let_def)
next
  case (Suc k)
  have k: "k < length commonSelectors" using assms(1) Suc by (simp add: strategies_def)
  have "\<not> succeeds pf doc Composite" using assms(4) Suc by (auto simp: strategies_def)
  then have skip: "ScrapePrice_with pf (Response 200 (Some doc)) = try_selectors pf doc commonSelectors"
    by (auto simp: succeeds_def ScrapePrice_with_def Let_def split: sum.splits)
  have ft: "first_text (doc (commonSelectors ! k)) \<noteq> []"
    and par: "ParsePriceString_with pf (first_text (doc (commonSelectors ! k))) = Inr p"
    using assms(2,3) Suc k by (simp_all add: strategies_def)
  have "\<forall>j<k. \<not> succeeds pf doc (Generic (commonSelectors ! j))"
  proof (intro allI impI)
    fix j assume jk: "j < k"
    then have "Suc j < i" using Suc by simp
    with assms(4) have "\<not> succeeds pf doc (strategies ! Suc j)" by blast
    then show "\<not> succeeds pf doc (Generic (commonSelectors ! j))"
      using jk k by (simp add: strategies_def)
  qed
  from try_selectors_first [OF k ft par this] skip Suc k show ?thesis
    by (simp add: strategies_def)
qed

theorem ScrapePrice_earliest_strategy_witness:
  "(5::nat) < length strategies \<and> succeeds ParseFloat doc_two_generic (strategies ! 5) \<and>
   succeeds ParseFloat doc_two_generic (strategies ! 6) \<and>
   \<not> succeeds ParseFloat doc_two_generic (strategies ! 0) \<and>
   \<not> succeeds ParseFloat doc_two_generic (strategies ! 1) \<and>
   \<not> succeeds ParseFloat doc_two_generic (strategies ! 2) \<and>
   \<not> succeeds ParseFloat doc_two_generic (strategies ! 3) \<and>
   \<not> succeeds ParseFloat doc_two_generic (strategies ! 4) \<and>
   ScrapePrice_with ParseFloat (Response 200 (Some doc_two_generic)) = Inr (2999 / 100, ''.price'')"
proof -
  have l: "(5::nat) < length strategies" by code_simp
  have t: "matched_text doc_two_generic (strategies ! 5) \<noteq> []" by code_simp
  have p: "ParsePriceString_with ParseFloat (matched_text doc_two_generic (strategies ! 5)) = Inr (2999 / 100)"
    by code_simp
  have n: "\<forall>j<5. \<not> succeeds ParseFloat doc_two_generic (strategies ! j)" by code_simp
  have s5: "succeeds ParseFloat doc_two_generic (strategies ! 5)" by code_simp
  have s6: "succeeds ParseFloat doc_two_generic (strategies ! 6)" by code_simp
  have i: "strategy_id (strategies ! 5) = ''.price''" by code_simp
  have n0: "\<not> succeeds ParseFloat doc_two_generic (strategies ! 0)" using n by simp
  have n1: "\<not> succeeds ParseFloat doc_two_generic (strategies ! 1)" using n by simp
  have n2: "\<not> succeeds ParseFloat doc_two_generic (strategies ! 2)" using n by simp
  have n3: "\<not> succeeds ParseFloat doc_two_generic (strategies ! 3)" using n by simp
  have n4: "\<not> succeeds ParseFloat doc_two_generic (strategies ! 4)" using n by simp
  from ScrapePrice_earliest_strategy [OF l t p n] i l s5 s6 n0 n1 n2 n3 n4 show ?thesis by simp
qed

text \<open>When no strategy succeeds, the scrape fails.\<close>

lemma try_selectors_none:
  assumes "\<forall>sel\<in>set sels. \<not> succeeds pf doc (Generic sel)"
  shows "try_selectors pf doc sels = Inl CouldNotFindPrice"
  using assms
proof (induction sels)
  case Nil
  then show ?case by simp
next
  case (Cons sel rest)
  then have "\<not> succeeds pf doc (Generic sel)" by simp
  then have "try_selectors pf doc (sel # rest) = try_selectors pf doc rest"
    by (auto simp: succeeds_def Let_def split: sum.splits)
  with Cons show ?case by simp
qed

lemma ScrapePrice_no_strategy:
  assumes "\<forall>st\<in>set strategies. \<not> succeeds pf doc st"
  shows "ScrapePrice_with pf (Response 200 (Some doc)) = Inl CouldNotFindPrice"
proof -
  have "\<not> succeeds pf doc Composite" using assms by (simp add: strategies_def)
  then have "ScrapePrice_with pf (Response 200 (Some doc)) = try_selectors pf doc commonSelectors"
    by (auto simp: succeeds_def ScrapePrice_with_def Let_def split: sum.splits)
  moreover have "\<forall>sel\<in>set commonSelectors. \<not> succeeds pf doc (Generic sel)"
    using assms by (simp add: strategies_def)
  ultimately show ?thesis by (simp add: try_selectors_none)
qed

text \<open>The text that the composite step builds from a whole-number element and its first
  fraction sibling.\<close>

lemma filter_grouped:
  assumes "grouped_digits core"
  shows "filter (\<lambda>x. x \<noteq> CHR '','') core = filter isDigit core"
    and "filter isDigit core \<noteq> []"
    and "isDigit (last (filter isDigit core))"
proof -
  have all: "\<forall>c\<in>set core. isDigit c \<or> c = CHR '',''"
    using assms by (simp add: grouped_digits_def list_all_iff)
  have nd: "\<not> isDigit (CHR '','')" by (simp add: isDigit_def)
  show "filter (\<lambda>x. x \<noteq> CHR '','') core = filter isDigit core"
    using all nd by (intro filter_cong) auto
  have "hd core \<in> set core" and "isDigit (hd core)"
    using assms by (simp_all add: grouped_digits_def)
  then show ne: "filter isDigit core \<noteq> []" by (auto simp: filter_empty_conv)
  then have "last (filter isDigit core) \<in> set (filter isDigit core)" by (rule last_in_set)
  then show "isDigit (last (filter isDigit core))" by simp
qed

lemma amazon_text_digits:
  assumes "doc ''.a-price-whole'' = s # rest"
    and "el_Text s = pre @ core @ dot @ post"
    and "list_all asciiSpace pre" and "list_all asciiSpace post"
    and "dot = [] \<or> dot = ''.''"
    and "grouped_digits core"
    and "(el_fraction_siblings s = [] \<and> fraction = ''00'') \<or>
         (\<exists>f fs fpre fpost. el_fraction_siblings s = f # fs \<and> f = fpre @ fraction @ fpost \<and>
            list_all asciiSpace fpre \<and> list_all asciiSpace fpost \<and>
            fraction \<noteq> [] \<and> list_all isDigit fraction)"
  shows "amazon_text doc = filter isDigit core @ ''.'' @ fraction"
proof -
  have cne: "core \<noteq> []" and hc: "isDigit (hd core)" and lc: "isDigit (last core)"
    using assms(6) by (simp_all add: grouped_digits_def)
  have cd: "core @ dot \<noteq> []" using cne by simp
  have hd': "isDigit (hd (core @ dot)) \<or> hd (core @ dot) = CHR ''.''" using cne hc by simp
  have la': "isDigit (last (core @ dot)) \<or> last (core @ dot) = CHR ''.''"
    using assms(5) lc by auto
  have "TrimSpace (el_Text s) = TrimSpace (pre @ (core @ dot) @ post)"
    using assms(2) by simp
  also have "\<dots> = core @ dot" using assms(3,4) cd hd' la' by (rule TrimSpace_core)
  finally have t: "TrimSpace (el_Text s) = core @ dot" .
  have "filter (\<lambda>x. x \<noteq> CHR '','') dot = dot" using assms(5) by auto
  then have r: "ReplaceAll (core @ dot) '','' '''' = filter isDigit core @ dot"
    by (simp add: ReplaceAll_comma filter_grouped(1) [OF assms(6)])
  have np: "last (filter isDigit core) \<noteq> CHR ''.''"
    using filter_grouped(3) [OF assms(6)] by (auto simp: isDigit_def)
  have w: "TrimSuffix (filter isDigit core @ dot) ''.'' = filter isDigit core"
    using filter_grouped(2) [OF assms(6)] np assms(5) by (rule TrimSuffix_point)
  have fr: "(case el_fraction_siblings s of [] \<Rightarrow> ''00'' | f # _ \<Rightarrow> TrimSpace f) = fraction"
    using assms(7)
  proof (elim disjE exE conjE)
    assume "el_fraction_siblings s = []" and "fraction = ''00''"
    then show ?thesis by simp
  next
    fix f fs fpre fpost
    assume f: "el_fraction_siblings s = f # fs" "f = fpre @ fraction @ fpost"
      and sp: "list_all asciiSpace fpre" "list_all asciiSpace fpost"
      and fd: "fraction \<noteq> []" "list_all isDigit fraction"
    have "isDigit (hd fraction)" and "isDigit (last fraction)"
      using fd by (simp_all add: list_all_iff)
    then have "TrimSpace (fpre @ fraction @ fpost) = fraction"
      using sp fd(1) by (intro TrimSpace_core) simp_all
    with f show ?thesis by simp
  qed
  show ?thesis using assms(1) t r w fr by (simp add: amazon_text_def Let_def)
qed

text \<open>
  C6, for every float parser \<open>pf\<close> in the place of \<^verbatim>\<open>strconv.ParseFloat\<close>: when the first
  whole-number price element holds comma-grouped digits (with white space around and
  possibly a point at the end, as Amazon prints them), the composite strategy hands the
  float parser the text \<^verbatim>\<open><whole>.<fraction>\<close>, where \<^verbatim>\<open><whole>\<close> is the digits of the element
  without the commas and \<^verbatim>\<open><fraction>\<close> is the digits of its first fraction sibling, or
  \<^verbatim>\<open>00\<close> when it has none, and returns the parsed value under the composite identifier.
  Whole \<^verbatim>\<open>1,234\<close> with fraction \<^verbatim>\<open>99\<close> gives 1234.99, and whole \<^verbatim>\<open>1,234\<close> without a fraction
  sibling gives 1234.00.
\<close>

theorem ScrapePrice_composite:
  assumes "doc ''.a-price-whole'' = s # rest"
    and "el_Text s = pre @ core @ dot @ post"
    and "list_all asciiSpace pre" and "list_all asciiSpace post"
    and "dot = [] \<or> dot = ''.''"
    and "grouped_digits core"
    and "(el_fraction_siblings s = [] \<and> fraction = ''00'') \<or>
         (\<exists>f fs fpre fpost. el_fraction_siblings s = f # fs \<and> f = fpre @ fraction @ fpost \<and>
            list_all asciiSpace fpre \<and> list_all asciiSpace fpost \<and>
            fraction \<noteq> [] \<and> list_all isDigit fraction)"
    and "pf (filter isDigit core @ ''.'' @ fraction) = Inr p"
  shows "amazon_text doc = filter isDigit core @ ''.'' @ fraction \<and>
         ScrapePrice_with pf (Response 200 (Some doc)) = Inr (p, ''.a-price-whole (composite)'')"
proof -
  let ?t = "filter isDigit core @ ''.'' @ fraction"
  have a: "amazon_text doc = ?t" using assms(1-7) by (rule amazon_text_digits)
  have fd: "list_all isDigit fraction" using assms(7) by (auto simp: isDigit_def)
  have "list_all numeral_byte ?t"
    using fd by (auto simp: numeral_byte_def list_all_iff)
  then have "ParsePriceString_with pf ?t = Inr p"
    using assms(8) by (simp add: ParsePriceString_with_numeral)
  then show ?thesis using a by (simp add: ScrapePrice_with_def Let_def)
qed

theorem ScrapePrice_composite_witness:
  "amazon_text doc_whole_fraction = ''1234.99'' \<and>
   ScrapePrice_with ParseFloat (Response 200 (Some doc_whole_fraction)) =
     Inr (123499 / 100, ''.a-price-whole (composite)'') \<and>
   amazon_text doc_whole_only = ''1234.00'' \<and>
   ScrapePrice_with ParseFloat (Response 200 (Some doc_whole_only)) =
     Inr (1234, ''.a-price-whole (composite)'')"
proof -
  have d1: "doc_whole_fraction ''.a-price-whole'' =
      \<lparr>el_Text = [CHR 0x0A] @ ''  1,234.'' @ [CHR 0x0A], el_content = None,
        el_fraction_siblings = ['' 99 '']\<rparr> # []"
    by (simp add: doc_whole_fraction_def)
  have t1: "el_Text \<lparr>el_Text = [CHR 0x0A] @ ''  1,234.'' @ [CHR 0x0A], el_content = None,
        el_fraction_siblings = ['' 99 '']\<rparr> = (CHR 0x0A # ''  '') @ ''1,234'' @ ''.'' @ [CHR 0x0A]"
    by simp
  have s1: "list_all asciiSpace (CHR 0x0A # ''  '')" "list_all asciiSpace [CHR 0x0A]"
    by (simp_all add: asciiSpace_def)
  have g: "grouped_digits ''1,234''" by code_simp
  have f1: "(el_fraction_siblings \<lparr>el_Text = [CHR 0x0A] @ ''  1,234.'' @ [CHR 0x0A], el_content = None,
        el_fraction_siblings = ['' 99 '']\<rparr> = [] \<and> ''99'' = ''00'') \<or>
      (\<exists>f fs fpre fpost. el_fraction_siblings \<lparr>el_Text = [CHR 0x0A] @ ''  1,234.'' @ [CHR 0x0A],
          el_content = None, el_fraction_siblings = ['' 99 '']\<rparr> = f # fs \<and>
          f = fpre @ ''99'' @ fpost \<and> list_all asciiSpace fpre \<and> list_all asciiSpace fpost \<and>
          ''99'' \<noteq> [] \<and> list_all isDigit ''99'')"
  proof -
    have "'' 99 '' = '' '' @ ''99'' @ '' ''" by simp
    moreover have "list_all asciiSpace '' ''" by (simp add: asciiSpace_def)
    moreover have "list_all isDigit ''99''" by (simp add: isDigit_def)
    ultimately show ?thesis by (intro disjI2 exI [of _ "'' 99 ''"] exI [of _ "[]"] exI [of _ "'' ''"]) simp
  qed
  have fl: "filter isDigit ''1,234'' = ''1234''" by code_simp
  have p1: "ParseFloat (filter isDigit ''1,234'' @ ''.'' @ ''99'') = Inr (123499 / 100)"
    unfolding fl by code_simp
  have p2: "ParseFloat (filter isDigit ''1,234'' @ ''.'' @ ''00'') = Inr 1234"
    unfolding fl by code_simp
  have d2: "doc_whole_only ''.a-price-whole'' = plain ''1,234'' # []"
    by (simp add: doc_whole_only_def)
  have t2: "el_Text (plain ''1,234'') = [] @ ''1,234'' @ [] @ []" by (simp add: plain_def)
  have f2: "(el_fraction_siblings (plain ''1,234'') = [] \<and> ''00'' = ''00'') \<or>
      (\<exists>f fs fpre fpost. el_fraction_siblings (plain ''1,234'') = f # fs \<and>
          f = fpre @ ''00'' @ fpost \<and> list_all asciiSpace fpre \<and> list_all asciiSpace fpost \<and>
          ''00'' \<noteq> [] \<and> list_all isDigit ''00'')"
    by (simp add: plain_def)
  have e: "list_all asciiSpace []" by simp
  have r1: "amazon_text doc_whole_fraction = filter isDigit ''1,234'' @ ''.'' @ ''99'' \<and>
     ScrapePrice_with ParseFloat (Response 200 (Some doc_whole_fraction)) =
       Inr (123499 / 100, ''.a-price-whole (composite)'')"
    by (rule ScrapePrice_composite [where doc = doc_whole_fraction
          and s = "\<lparr>el_Text = [CHR 0x0A] @ ''  1,234.'' @ [CHR 0x0A], el_content = None,
                     el_fraction_siblings = ['' 99 '']\<rparr>"
          and pre = "CHR 0x0A # ''  ''" and core = "''1,234''" and dot = "''.''"
          and post = "[CHR 0x0A]" and rest = "[]" and fraction = "''99''" and pf = ParseFloat,
          OF d1 t1 s1 _ g f1 p1]) simp
  have r2: "amazon_text doc_whole_only = filter isDigit ''1,234'' @ ''.'' @ ''00'' \<and>
     ScrapePrice_with ParseFloat (Response 200 (Some doc_whole_only)) =
       Inr (1234, ''.a-price-whole (composite)'')"
    by (rule ScrapePrice_composite [where doc = doc_whole_only and s = "plain ''1,234''"
          and pre = "[]" and core = "''1,234''" and dot = "[]" and post = "[]"
          and rest = "[]" and fraction = "''00''" and pf = ParseFloat,
          OF d2 t2 e e _ g f2 p2]) simp
  from r1 [unfolded fl] r2 [unfolded fl] show ?thesis by simp
qed


section \<open>Properties of the subscriber set\<close>

text \<open>The sending loop, in closed form, when no listed client has a closed channel.\<close>

lemma send_all_result:
  assumes "distinct cs" and "\<forall>c\<in>set cs. \<not> ch_closed (heap g c)"
  shows "send_all alert cs g =
           Inr (g\<lparr>heap := (\<lambda>c. if c \<in> set cs then sent alert (heap g c) else heap g c),
                  clients := filter (\<lambda>c. c \<notin> set cs \<or> has_room (heap g c)) (clients g)\<rparr>)"
  using assms
proof (induction cs arbitrary: g)
  case Nil
  then show ?case by simp
next
  case (Cons x xs)
  let ?ch = "heap g x"
  have nc: "\<not> ch_closed ?ch" using Cons.prems(2) by simp
  have dx: "x \<notin> set xs" and d: "distinct xs" using Cons.prems(1) by simp_all
  show ?case
  proof (cases "has_room ?ch")
    case True
    let ?g1 = "g\<lparr>heap := (heap g)(x := ?ch\<lparr>ch_buf := ch_buf ?ch @ [alert]\<rparr>)\<rparr>"
    have s: "send_all alert (x # xs) g = send_all alert xs ?g1"
      using nc True by (simp add: has_room_def Let_def)
    have p: "\<forall>c\<in>set xs. \<not> ch_closed (heap ?g1 c)" using Cons.prems(2) dx by auto
    have h: "(\<lambda>c. if c \<in> set xs then sent alert (heap ?g1 c) else heap ?g1 c) =
             (\<lambda>c. if c \<in> set (x # xs) then sent alert (heap g c) else heap g c)"
      using dx True by (auto simp: sent_def fun_eq_iff)
    have f: "filter (\<lambda>c. c \<notin> set xs \<or> has_room (heap ?g1 c)) (clients ?g1) =
             filter (\<lambda>c. c \<notin> set (x # xs) \<or> has_room (heap g c)) (clients g)"
      using dx True by (auto intro!: filter_cong)
    show ?thesis unfolding s Cons.IH [OF d p] using h f by simp
  next
    case False
    let ?g1 = "g\<lparr>heap := (heap g)(x := ?ch\<lparr>ch_closed := True\<rparr>),
                 clients := removeAll x (clients g)\<rparr>"
    have s: "send_all alert (x # xs) g = send_all alert xs ?g1"
      using nc False by (simp add: has_room_def Let_def)
    have p: "\<forall>c\<in>set xs. \<not> ch_closed (heap ?g1 c)" using Cons.prems(2) dx by auto
    have h: "(\<lambda>c. if c \<in> set xs then sent alert (heap ?g1 c) else heap ?g1 c) =
             (\<lambda>c. if c \<in> set (x # xs) then sent alert (heap g c) else heap g c)"
      using dx False by (auto simp: sent_def fun_eq_iff)
    have f: "filter (\<lambda>c. c \<notin> set xs \<or> has_room (heap ?g1 c)) (clients ?g1) =
             filter (\<lambda>c. c \<notin> set (x # xs) \<or> has_room (heap g c)) (clients g)"
      using dx False by (auto simp: removeAll_filter_not_eq intro!: filter_cong)
    show ?thesis unfolding s Cons.IH [OF d p] using h f by simp
  qed
qed

lemma broadcast_result:
  assumes "distinct (clients g)" and "\<forall>c\<in>set (clients g). \<not> ch_closed (heap g c)"
  shows "broadcast alert g =
           Inr (g\<lparr>heap := (\<lambda>c. if c \<in> set (clients g) then sent alert (heap g c) else heap g c),
                  clients := filter (\<lambda>c. has_room (heap g c)) (clients g)\<rparr>)"
proof -
  have "filter (\<lambda>c. c \<notin> set (clients g) \<or> has_room (heap g c)) (clients g) =
        filter (\<lambda>c. has_room (heap g c)) (clients g)"
    by (auto intro!: filter_cong)
  then show ?thesis unfolding broadcast_def send_all_result [OF assms] by simp
qed

text \<open>The sending loop keeps the subscribers distinct and their channels open.\<close>

lemma broadcast_keeps_subscribers_open:
  assumes "distinct (clients g)" and "\<forall>c\<in>set (clients g). \<not> ch_closed (heap g c)"
    and "broadcast alert g = Inr g'"
  shows "distinct (clients g') \<and> (\<forall>c\<in>set (clients g'). \<not> ch_closed (heap g' c))"
proof -
  have "g' = g\<lparr>heap := (\<lambda>c. if c \<in> set (clients g) then sent alert (heap g c) else heap g c),
               clients := filter (\<lambda>c. has_room (heap g c)) (clients g)\<rparr>"
    using broadcast_result [OF assms(1,2), of alert] assms(3) by simp
  then show ?thesis using assms(1,2) by (simp add: sent_def)
qed

text \<open>
  C7: with \<open>N\<close> registered subscribers of which exactly one, \<open>f\<close>, has a full queue, the
  sending loop returns (it neither blocks nor panics), appends the alert to the queue of
  each of the other \<open>N - 1\<close> subscribers, closes the queue of \<open>f\<close> without adding to it, and
  removes \<open>f\<close>, and only \<open>f\<close>, from the subscriber set.
\<close>

theorem broadcast_one_full:
  assumes "distinct (clients g)"
    and "\<forall>c\<in>set (clients g). \<not> ch_closed (heap g c)"
    and "f \<in> set (clients g)"
    and "length (ch_buf (heap g f)) = ch_cap (heap g f)"
    and "\<forall>c\<in>set (clients g). c \<noteq> f \<longrightarrow> length (ch_buf (heap g c)) < ch_cap (heap g c)"
  shows "\<exists>g'. broadcast alert g = Inr g' \<and>
           (\<forall>c\<in>set (clients g). c \<noteq> f \<longrightarrow>
              ch_buf (heap g' c) = ch_buf (heap g c) @ [alert] \<and> \<not> ch_closed (heap g' c)) \<and>
           ch_closed (heap g' f) \<and> ch_buf (heap g' f) = ch_buf (heap g f) \<and>
           clients g' = removeAll f (clients g) \<and>
           length (clients g') = length (clients g) - 1 \<and>
           trackingItems g' = trackingItems g"
proof -
  let ?g' = "g\<lparr>heap := (\<lambda>c. if c \<in> set (clients g) then sent alert (heap g c) else heap g c),
               clients := filter (\<lambda>c. has_room (heap g c)) (clients g)\<rparr>"
  have b: "broadcast alert g = Inr ?g'" using assms(1,2) by (rule broadcast_result)
  have nf: "\<not> has_room (heap g f)" using assms(4) by (simp add: has_room_def)
  have others: "\<forall>c\<in>set (clients g). c \<noteq> f \<longrightarrow> has_room (heap g c)"
    using assms(5) by (simp add: has_room_def)
  have c: "filter (\<lambda>c. has_room (heap g c)) (clients g) = removeAll f (clients g)"
    unfolding removeAll_filter_not_eq using nf others by (auto intro!: filter_cong)
  have l: "length (removeAll f (clients g)) = length (clients g) - 1"
    using assms(1,3) by (simp add: distinct_remove1_removeAll [symmetric] length_remove1)
  have "\<forall>c\<in>set (clients g). c \<noteq> f \<longrightarrow>
          ch_buf (heap ?g' c) = ch_buf (heap g c) @ [alert] \<and> \<not> ch_closed (heap ?g' c)"
    using others assms(2) by (simp add: sent_def)
  moreover have "ch_closed (heap ?g' f) \<and> ch_buf (heap ?g' f) = ch_buf (heap g f)"
    using nf assms(3) by (simp add: sent_def)
  moreover have "clients ?g' = removeAll f (clients g)" using c by simp
  moreover have "length (clients ?g') = length (clients g) - 1" using c l by simp
  moreover have "trackingItems ?g' = trackingItems g" by simp
  ultimately show ?thesis using b by blast
qed

theorem broadcast_one_full_witness:
  "\<exists>g'. broadcast alert0 hub3 = Inr g' \<and>
     ch_buf (heap g' 1) = [alert0, alert0] \<and> \<not> ch_closed (heap g' 1) \<and>
     ch_buf (heap g' 3) = [alert0] \<and> \<not> ch_closed (heap g' 3) \<and>
     ch_closed (heap g' 2) \<and> ch_buf (heap g' 2) = [alert0, alert0] \<and>
     clients g' = [1, 3]"
proof -
  have h1: "distinct (clients hub3)" by (simp add: hub3_def)
  have h2: "\<forall>c\<in>set (clients hub3). \<not> ch_closed (heap hub3 c)" by (simp add: hub3_def)
  have h3: "2 \<in> set (clients hub3)" by (simp add: hub3_def)
  have h4: "length (ch_buf (heap hub3 2)) = ch_cap (heap hub3 2)" by (simp add: hub3_def)
  have h5: "\<forall>c\<in>set (clients hub3). c \<noteq> 2 \<longrightarrow> length (ch_buf (heap hub3 c)) < ch_cap (heap hub3 c)"
    by (simp add: hub3_def)
  from broadcast_one_full [OF h1 h2 h3 h4 h5, of alert0] obtain g' where
    g': "broadcast alert0 hub3 = Inr g'"
      "\<forall>c\<in>set (clients hub3). c \<noteq> 2 \<longrightarrow>
          ch_buf (heap g' c) = ch_buf (heap hub3 c) @ [alert0] \<and> \<not> ch_closed (heap g' c)"
      "ch_closed (heap g' 2)" "ch_buf (heap g' 2) = ch_buf (heap hub3 2)"
      "clients g' = removeAll 2 (clients hub3)"
    by blast
  then show ?thesis by (simp add: hub3_def)
qed

section \<open>Properties of the tracking registry\<close>

lemma trackPriceHandler_valid:
  assumes "tr_URL req \<noteq> []" and "0 < tr_TargetPrice req" and "tr_ID req \<noteq> []"
  shows "trackPriceHandler (Some req) g =
           (TrackingStarted (tr_ID req),
            g\<lparr>trackingItems := AList.update (tr_ID req) req (trackingItems g)\<rparr>)"
  using assms by (simp add: trackPriceHandler_def)

text \<open>
  C2, as the code has it: a track request with a non-empty URL, a non-empty id and a
  positive target price always succeeds, whether or not the id is already present. There
  is no duplicate error: afterwards the registry maps the id to the new request, an
  existing entry for the id being overwritten, and every other entry, the subscribers
  and their channels are unchanged. The stored item is the request itself (URL, target
  price and id); it has no last price and no selector.
\<close>

theorem trackPriceHandler_overwrites:
  assumes "tr_URL req \<noteq> []" and "0 < tr_TargetPrice req" and "tr_ID req \<noteq> []"
  shows "fst (trackPriceHandler (Some req) g) = TrackingStarted (tr_ID req) \<and>
         map_of (trackingItems (snd (trackPriceHandler (Some req) g))) =
           (map_of (trackingItems g))(tr_ID req \<mapsto> req) \<and>
         (distinct (map fst (trackingItems g)) \<longrightarrow>
            distinct (map fst (trackingItems (snd (trackPriceHandler (Some req) g))))) \<and>
         clients (snd (trackPriceHandler (Some req) g)) = clients g \<and>
         heap (snd (trackPriceHandler (Some req) g)) = heap g"
  by (simp add: trackPriceHandler_valid [OF assms] update_conv' distinct_update)

theorem trackPriceHandler_overwrites_witness:
  "fst (trackPriceHandler (Some item_b) g_one) = TrackingStarted ''b'' \<and>
   map_of (trackingItems (snd (trackPriceHandler (Some item_b) g_one))) ''b'' = Some item_b \<and>
   map_of (trackingItems (snd (trackPriceHandler (Some item_b) g_one))) ''a'' = Some item_a \<and>
   fst (trackPriceHandler (Some item_a2) g_one) = TrackingStarted ''a'' \<and>
   map_of (trackingItems (snd (trackPriceHandler (Some item_a2) g_one))) ''a'' = Some item_a2"
proof -
  have b: "tr_URL item_b \<noteq> []" "0 < tr_TargetPrice item_b" "tr_ID item_b \<noteq> []"
    by (simp_all add: item_b_def)
  have a: "tr_URL item_a2 \<noteq> []" "0 < tr_TargetPrice item_a2" "tr_ID item_a2 \<noteq> []"
    by (simp_all add: item_a2_def)
  have ib: "tr_ID item_b = ''b''" by (simp add: item_b_def)
  have ia: "tr_ID item_a2 = ''a''" by (simp add: item_a2_def)
  have m: "map_of (trackingItems g_one) = [''a'' \<mapsto> item_a]" by (simp add: g_one_def)
  from trackPriceHandler_overwrites [OF b, of g_one] trackPriceHandler_overwrites [OF a, of g_one]
  show ?thesis by (simp add: ib ia m)
qed

text \<open>The claim C2 as stated fails for the registry that holds \<open>item_a\<close> under the id
  \<^verbatim>\<open>a\<close>: tracking \<open>item_a2\<close> under the same id is accepted and replaces the entry.\<close>

theorem trackPriceHandler_duplicate_counterexample:
  "map_of (trackingItems g_one) ''a'' = Some item_a \<and>
   trackPriceHandler (Some item_a2) g_one =
     (TrackingStarted ''a'', g_one\<lparr>trackingItems := [(''a'', item_a2)]\<rparr>) \<and>
   item_a2 \<noteq> item_a"
  by (simp add: trackPriceHandler_def g_one_def item_a_def item_a2_def)

section \<open>Properties of the one-shot check\<close>

text \<open>The sending loop never touches the registry.\<close>

lemma send_all_trackingItems:
  "send_all alert cs g = Inr g' \<Longrightarrow> trackingItems g' = trackingItems g"
proof (induction cs arbitrary: g)
  case Nil
  then show ?case by simp
next
  case (Cons x xs)
  then show ?case by (fastforce simp: Let_def split: if_splits)
qed

lemma broadcast_trackingItems:
  "broadcast alert g = Inr g' \<Longrightarrow> trackingItems g' = trackingItems g"
  unfolding broadcast_def by (rule send_all_trackingItems)

lemma checkPriceHandler_trackingItems:
  assumes "checkPriceHandler body v unix_now timestamp g = Inr (r, g')"
  shows "trackingItems g' = trackingItems g"
  using assms
  by (auto simp: checkPriceHandler_def Let_def dest: broadcast_trackingItems
      split: option.splits if_splits sum.splits prod.splits)

text \<open>
  C10: a one-shot check with a non-empty URL and a positive target price whose scrape
  succeeds with a price at or below the target sends an alert whose id is \<^verbatim>\<open>check-\<close>
  followed by the Unix time in seconds through the sending loop over all connected
  subscribers (each subscriber whose queue has room gets it appended), and leaves the
  tracking registry as it was: the checked URL is not inserted. By
  \<open>checkPriceHandler_trackingItems\<close> the registry is unchanged on every other path of the
  handler as well.
\<close>

theorem checkPriceHandler_immediate_alert:
  assumes "pc_URL req \<noteq> []" and "0 < pc_TargetPrice req"
    and "scrapePrice v = Inr (priceString, currentPrice)"
    and "currentPrice \<le> pc_TargetPrice req"
    and "distinct (clients g)"
    and "\<forall>c\<in>set (clients g). \<not> ch_closed (heap g c)"
    and "alert = \<lparr>pa_ID = ''check-'' @ itoa unix_now, pa_URL = pc_URL req,
                   pa_CurrentPrice = currentPrice, pa_TargetPrice = pc_TargetPrice req,
                   pa_PriceString = priceString, pa_Timestamp = timestamp\<rparr>"
  shows "\<exists>g'. checkPriceHandler (Some req) v unix_now timestamp g =
                 Inr (CheckReply \<lparr>re_CurrentPrice = currentPrice, re_TargetPrice = pc_TargetPrice req,
                                  re_IsBelowTarget = True, re_PriceString = priceString,
                                  re_Success = True, re_Message = PriceCheckSuccessful\<rparr>, g') \<and>
               broadcast alert g = Inr g' \<and>
               (\<forall>c\<in>set (clients g). has_room (heap g c) \<longrightarrow>
                  ch_buf (heap g' c) = ch_buf (heap g c) @ [alert]) \<and>
               trackingItems g' = trackingItems g"
proof -
  let ?g' = "g\<lparr>heap := (\<lambda>c. if c \<in> set (clients g) then sent alert (heap g c) else heap g c),
               clients := filter (\<lambda>c. has_room (heap g c)) (clients g)\<rparr>"
  have b: "broadcast alert g = Inr ?g'" using assms(5,6) by (rule broadcast_result)
  have "checkPriceHandler (Some req) v unix_now timestamp g =
          Inr (CheckReply \<lparr>re_CurrentPrice = currentPrice, re_TargetPrice = pc_TargetPrice req,
                           re_IsBelowTarget = True, re_PriceString = priceString,
                           re_Success = True, re_Message = PriceCheckSuccessful\<rparr>, ?g')"
    using assms(1-4) b unfolding assms(7) by (simp add: checkPriceHandler_def Let_def)
  moreover have "\<forall>c\<in>set (clients g). has_room (heap g c) \<longrightarrow>
      ch_buf (heap ?g' c) = ch_buf (heap g c) @ [alert]"
    by (simp add: sent_def)
  moreover have "trackingItems ?g' = trackingItems g" by simp
  ultimately show ?thesis using b by blast
qed

theorem checkPriceHandler_immediate_alert_witness:
  "\<exists>g'. checkPriceHandler (Some check_req) (Visited [''95'']) 1700000000 ''2023-11-14T22:13:20Z'' g_one =
           Inr (CheckReply \<lparr>re_CurrentPrice = 95, re_TargetPrice = 100,
                            re_IsBelowTarget = True, re_PriceString = ''95'',
                            re_Success = True, re_Message = PriceCheckSuccessful\<rparr>, g') \<and>
         map pa_ID (ch_buf (heap g' 7)) = [''check-1700000000''] \<and>
         trackingItems g' = [(''a'', item_a)]"
proof -
  have h1: "pc_URL check_req \<noteq> []" and h2: "0 < pc_TargetPrice check_req"
    by (simp_all add: check_req_def)
  have h3: "scrapePrice (Visited [''95'']) = Inr (''95'', 95)" by code_simp
  have h4: "(95::rat) \<le> pc_TargetPrice check_req" by (simp add: check_req_def)
  have h5: "distinct (clients g_one)" by (simp add: g_one_def)
  have h6: "\<forall>c\<in>set (clients g_one). \<not> ch_closed (heap g_one c)" by (simp add: g_one_def)
  have i: "itoa 1700000000 = ''1700000000''" by code_simp
  from checkPriceHandler_immediate_alert [OF h1 h2 h3 h4 h5 h6 refl,
      of 1700000000 "''2023-11-14T22:13:20Z''"]
  show ?thesis by (auto simp: i g_one_def check_req_def has_room_def)
qed

section \<open>Properties of the monitor\<close>

text \<open>Every step keeps the ids of the registry distinct, and a paced step keeps the ids in
  flight distinct.\<close>

lemma checkAndNotify_distinct:
  assumes "checkAndNotify i item v ts g = Inr g'" and "distinct (map fst (trackingItems g))"
  shows "distinct (map fst (trackingItems g'))"
  using assms
  by (auto simp: checkAndNotify_def distinct_delete dest!: broadcast_trackingItems
      split: sum.splits prod.splits if_splits)

lemma distinct_remove_nth:
  assumes "distinct (map f xs)"
  shows "distinct (map f (take k xs @ drop (Suc k) xs))"
proof -
  have "distinct (map f (take k xs) @ map f (drop k xs))"
    using assms by (simp only: map_append [symmetric] append_take_drop_id)
  then have "distinct (map f (take k xs))" and "distinct (map f (drop k xs))"
    and dj: "set (map f (take k xs)) \<inter> set (map f (drop k xs)) = {}"
    by simp_all
  have sub: "set (drop (Suc k) xs) \<subseteq> set (drop k xs)" by (rule set_drop_subset_set_drop) simp
  have "distinct (map f (drop (Suc k) xs))"
    using assms by (simp add: distinct_drop drop_map [symmetric])
  moreover have "distinct (map f (take k xs))"
    using assms by (simp add: distinct_take take_map [symmetric])
  moreover have "set (map f (take k xs)) \<inter> set (map f (drop (Suc k) xs)) = {}"
    using dj sub by auto
  ultimately show ?thesis by simp
qed

lemma step_keys_distinct:
  assumes "keys_distinct s" and "e = Tick \<longrightarrow> in_flight s = []" and "step e s = Inr s'"
  shows "keys_distinct s'"
proof (cases e)
  case Tick
  with assms show ?thesis by (auto simp: keys_distinct_def monitor_tick_def)
next
  case (Finish k v ts)
  show ?thesis
  proof (cases "k < length (in_flight s)")
    case True
    with assms(3) Finish obtain g where
      c: "checkAndNotify (fst (in_flight s ! k)) (snd (in_flight s ! k)) v ts (glob s) = Inr g"
      and s': "s' = \<lparr>glob = g, in_flight = take k (in_flight s) @ drop (Suc k) (in_flight s)\<rparr>"
      by (auto split: sum.splits)
    have "distinct (map fst (trackingItems g))"
      using checkAndNotify_distinct [OF c] assms(1) by (simp add: keys_distinct_def)
    moreover have "distinct (map fst (take k (in_flight s) @ drop (Suc k) (in_flight s)))"
      using assms(1) unfolding keys_distinct_def by (intro distinct_remove_nth) simp
    ultimately show ?thesis using s' by (simp add: keys_distinct_def)
  next
    case False
    with assms Finish show ?thesis by simp
  qed
next
  case (Track body)
  with assms show ?thesis
    by (auto simp: keys_distinct_def trackPriceHandler_def distinct_update split: option.splits)
next
  case (Untrack body)
  with assms show ?thesis
    by (auto simp: keys_distinct_def untrackPriceHandler_def distinct_delete split: option.splits)
qed

lemma paced_take: "paced evs s \<Longrightarrow> paced (take k evs) s"
proof (induction evs arbitrary: s k)
  case Nil
  then show ?case by simp
next
  case (Cons e es)
  show ?case
  proof (cases k)
    case 0
    then show ?thesis by simp
  next
    case (Suc j)
    with Cons show ?thesis by (auto split: sum.splits)
  qed
qed

lemma paced_run_keys_distinct:
  "keys_distinct s \<Longrightarrow> paced evs s \<Longrightarrow> run evs s = Inr s' \<Longrightarrow> keys_distinct s'"
proof (induction evs arbitrary: s)
  case Nil
  then show ?case by simp
next
  case (Cons e es)
  from Cons.prems(3) obtain s1 where s1: "step e s = Inr s1" and r: "run es s1 = Inr s'"
    by (auto split: sum.splits)
  have "e = Tick \<longrightarrow> in_flight s = []" using Cons.prems(2) by (simp split: if_splits)
  then have "keys_distinct s1" using step_keys_distinct [OF Cons.prems(1) _ s1] by blast
  moreover have "paced es s1" using Cons.prems(2) s1 by simp
  ultimately show ?case using Cons.IH r by blast
qed

text \<open>
  C8, as the code has it: every tick starts one check per entry of the registry, and the
  registry has each id once, so the checks started by one tick never share an id. In a
  run in which a tick only fires when no check is in flight (every check finishes
  within the polling interval), at most one check per id is in flight at every moment,
  whatever track and untrack requests arrive in between. The monitor has no guard for
  checks still in flight, so nothing is promised when a check outlasts the interval.
\<close>

theorem paced_checks_never_overlap:
  assumes "distinct (map fst (trackingItems (glob s)))"
    and "distinct (map fst (in_flight s))"
    and "paced evs s"
    and "run (take k evs) s = Inr s'"
  shows "distinct (map fst (in_flight s'))"
proof -
  have "keys_distinct s" using assms(1,2) by (simp add: keys_distinct_def)
  moreover have "paced (take k evs) s" using assms(3) by (rule paced_take)
  ultimately have "keys_distinct s'" using assms(4) by (rule paced_run_keys_distinct)
  then show ?thesis by (simp add: keys_distinct_def)
qed

theorem paced_checks_never_overlap_witness:
  "paced [Tick, Track (Some item_b), Finish 0 (Visited [''120'']) ''t1'', Tick] sys_one \<and>
   run [Tick, Track (Some item_b), Finish 0 (Visited [''120'']) ''t1'', Tick] sys_one =
     Inr \<lparr>glob = g_one\<lparr>trackingItems := [(''a'', item_a), (''b'', item_b)]\<rparr>,
          in_flight = [(''a'', item_a), (''b'', item_b)]\<rparr> \<and>
   distinct (map fst [(''a'', item_a), (''b'', item_b)])"
proof -
  have sp: "scrapePrice (Visited [''120'']) = Inr (''120'', 120)" by code_simp
  have r: "run [Tick, Track (Some item_b), Finish 0 (Visited [''120'']) ''t1'', Tick] sys_one =
     Inr \<lparr>glob = g_one\<lparr>trackingItems := [(''a'', item_a), (''b'', item_b)]\<rparr>,
          in_flight = [(''a'', item_a), (''b'', item_b)]\<rparr>"
    by (simp add: sys_one_def g_one_def monitor_tick_def trackPriceHandler_def checkAndNotify_def sp
        item_a_def item_b_def)
  have p: "paced [Tick, Track (Some item_b), Finish 0 (Visited [''120'']) ''t1'', Tick] sys_one"
    by (simp add: sys_one_def g_one_def monitor_tick_def trackPriceHandler_def checkAndNotify_def sp
        item_a_def item_b_def)
  have d1: "distinct (map fst (trackingItems (glob sys_one)))" by (simp add: sys_one_def g_one_def)
  have d2: "distinct (map fst (in_flight sys_one))" by (simp add: sys_one_def)
  from paced_checks_never_overlap [OF d1 d2 p, of 4] p r show ?thesis by simp
qed

text \<open>The claim C8 as stated fails when the check of item \<^verbatim>\<open>a\<close> is still running at the next
  tick: two ticks in a row leave two checks of \<^verbatim>\<open>a\<close> in flight.\<close>

theorem overlapping_checks_counterexample:
  "run [Tick, Tick] sys_one = Inr \<lparr>glob = g_one, in_flight = [(''a'', item_a), (''a'', item_a)]\<rparr> \<and>
   count_list (map fst [(''a'', item_a), (''a'', item_a)]) ''a'' = 2"
  by (simp add: sys_one_def g_one_def monitor_tick_def)

section \<open>Properties of checkAndNotify\<close>

text \<open>An alert for another id leaves the alerts for \<open>i\<close> in every queue as they are.\<close>

lemma send_all_alerts_for:
  assumes "pa_ID alert \<noteq> i" and "send_all alert cs g = Inr g'"
  shows "alerts_for i (heap g' c) = alerts_for i (heap g c)"
  using assms(2)
proof (induction cs arbitrary: g)
  case Nil
  then show ?case by simp
next
  case (Cons x xs)
  let ?ch = "heap g x"
  show ?case
  proof (cases "length (ch_buf ?ch) < ch_cap ?ch")
    case True
    let ?g1 = "g\<lparr>heap := (heap g)(x := ?ch\<lparr>ch_buf := ch_buf ?ch @ [alert]\<rparr>)\<rparr>"
    from Cons.prems True have "send_all alert xs ?g1 = Inr g'"
      by (simp add: Let_def split: if_splits)
    then have "alerts_for i (heap g' c) = alerts_for i (heap ?g1 c)" by (rule Cons.IH)
    also have "\<dots> = alerts_for i (heap g c)" using assms(1) by (simp add: alerts_for_def)
    finally show ?thesis .
  next
    case False
    let ?g1 = "g\<lparr>heap := (heap g)(x := ?ch\<lparr>ch_closed := True\<rparr>),
                 clients := removeAll x (clients g)\<rparr>"
    from Cons.prems False have "send_all alert xs ?g1 = Inr g'"
      by (simp add: Let_def split: if_splits)
    then have "alerts_for i (heap g' c) = alerts_for i (heap ?g1 c)" by (rule Cons.IH)
    also have "\<dots> = alerts_for i (heap g c)" by (simp add: alerts_for_def)
    finally show ?thesis .
  qed
qed

lemma checkAndNotify_other_id:
  assumes "j \<noteq> i" and "checkAndNotify j item v ts g = Inr g'"
  shows "alerts_for i (heap g' c) = alerts_for i (heap g c)"
    and "tracked_ids g' \<subseteq> tracked_ids g"
proof -
  show "alerts_for i (heap g' c) = alerts_for i (heap g c)"
    using assms
    by (auto simp: checkAndNotify_def broadcast_def dest!: send_all_alerts_for [where i = i and c = c, rotated]
        split: sum.splits prod.splits if_splits)
  show "tracked_ids g' \<subseteq> tracked_ids g"
    using assms(2)
    by (auto simp: checkAndNotify_def tracked_ids_def delete_keys simp del: set_map
        dest!: broadcast_trackingItems split: sum.splits prod.splits if_splits)
qed

lemma step_retired:
  assumes "retired i s" and "\<not> tracks i e" and "step e s = Inr s'"
  shows "retired i s' \<and> (\<forall>c. alerts_for i (heap (glob s') c) = alerts_for i (heap (glob s) c))"
proof (cases e)
  case Tick
  with assms show ?thesis by (force simp: retired_def monitor_tick_def tracked_ids_def)
next
  case (Finish k v ts)
  show ?thesis
  proof (cases "k < length (in_flight s)")
    case True
    let ?j = "fst (in_flight s ! k)"
    from True assms(3) Finish obtain g where
      c: "checkAndNotify ?j (snd (in_flight s ! k)) v ts (glob s) = Inr g"
      and s': "s' = \<lparr>glob = g, in_flight = take k (in_flight s) @ drop (Suc k) (in_flight s)\<rparr>"
      by (auto split: sum.splits)
    have "in_flight s ! k \<in> set (in_flight s)" using True by simp
    then have ji: "?j \<noteq> i" using assms(1) by (auto simp: retired_def)
    have "set (take k (in_flight s) @ drop (Suc k) (in_flight s)) \<subseteq> set (in_flight s)"
      using set_take_subset [of k "in_flight s"] set_drop_subset [of "Suc k" "in_flight s"] by auto
    then have "i \<notin> fst ` set (take k (in_flight s) @ drop (Suc k) (in_flight s))"
      using assms(1) by (auto simp: retired_def)
    moreover have "i \<notin> tracked_ids g"
      using checkAndNotify_other_id(2) [OF ji c] assms(1) by (auto simp: retired_def)
    moreover have "\<forall>c. alerts_for i (heap g c) = alerts_for i (heap (glob s) c)"
      using checkAndNotify_other_id(1) [OF ji c] by simp
    ultimately show ?thesis using s' by (simp add: retired_def)
  next
    case False
    with assms Finish show ?thesis by simp
  qed
next
  case (Track body)
  with assms show ?thesis
    by (cases body)
      (auto simp: retired_def trackPriceHandler_def tracked_ids_def update_keys simp del: set_map
        split: if_splits)
next
  case (Untrack body)
  with assms show ?thesis
    by (cases body)
      (auto simp: retired_def untrackPriceHandler_def tracked_ids_def delete_keys simp del: set_map)
qed

lemma run_retired:
  assumes "retired i s" and "\<not> list_ex (tracks i) evs" and "run evs s = Inr s'"
  shows "retired i s' \<and> (\<forall>c. alerts_for i (heap (glob s') c) = alerts_for i (heap (glob s) c))"
  using assms
proof (induction evs arbitrary: s)
  case Nil
  then show ?case by simp
next
  case (Cons e es)
  from Cons.prems(3) obtain s1 where s1: "step e s = Inr s1" and r: "run es s1 = Inr s'"
    by (auto split: sum.splits)
  have ne: "\<not> tracks i e" and nes: "\<not> list_ex (tracks i) es" using Cons.prems(2) by simp_all
  from step_retired [OF Cons.prems(1) ne s1]
  have r1: "retired i s1" and a1: "\<forall>c. alerts_for i (heap (glob s1) c) = alerts_for i (heap (glob s) c)"
    by simp_all
  from Cons.IH [OF r1 nes r] a1 show ?case by simp
qed

text \<open>
  C1, as the code has it: a check that observes a price at or below the target sends
  the alert through the sending loop and then deletes the id from the registry, before it
  returns. Once it has returned the id is no longer tracked, and as long as the id is
  not tracked again, no check that a later tick starts (and no check in flight for
  another id) adds an alert for that id to any subscriber's queue, whatever prices are
  observed. The check works on the copy of the item taken at its tick and does not
  consult the registry, so nothing is promised about a check of the same id that was
  already in flight.
\<close>

theorem checkAndNotify_retires_item:
  assumes "scrapePrice v = Inr (priceString, currentPrice)"
    and "currentPrice \<le> tr_TargetPrice item"
    and "checkAndNotify i item v timestamp g = Inr g1"
    and "i \<notin> fst ` set fl"
    and "\<not> list_ex (tracks i) evs"
    and "run evs \<lparr>glob = g1, in_flight = fl\<rparr> = Inr s'"
  shows "(\<exists>gb. broadcast \<lparr>pa_ID = i, pa_URL = tr_URL item, pa_CurrentPrice = currentPrice,
                         pa_TargetPrice = tr_TargetPrice item, pa_PriceString = priceString,
                         pa_Timestamp = timestamp\<rparr> g = Inr gb \<and>
               g1 = gb\<lparr>trackingItems := AList.delete i (trackingItems gb)\<rparr>) \<and>
         i \<notin> tracked_ids g1 \<and>
         i \<notin> tracked_ids (glob s') \<and>
         (\<forall>c. alerts_for i (heap (glob s') c) = alerts_for i (heap g1 c))"
proof -
  from assms(1-3) obtain gb where
    b: "broadcast \<lparr>pa_ID = i, pa_URL = tr_URL item, pa_CurrentPrice = currentPrice,
                   pa_TargetPrice = tr_TargetPrice item, pa_PriceString = priceString,
                   pa_Timestamp = timestamp\<rparr> g = Inr gb"
    and g1: "g1 = gb\<lparr>trackingItems := AList.delete i (trackingItems gb)\<rparr>"
    by (auto simp: checkAndNotify_def split: sum.splits)
  have n: "i \<notin> tracked_ids g1" using g1 by (simp add: tracked_ids_def delete_keys del: set_map)
  then have "retired i \<lparr>glob = g1, in_flight = fl\<rparr>" using assms(4) by (simp add: retired_def)
  from run_retired [OF this assms(5,6)] b g1 n show ?thesis by (simp add: retired_def)
qed

theorem checkAndNotify_retires_item_witness:
  "\<exists>g1 s'. checkAndNotify ''a'' item_a (Visited [''95'']) ''t1'' g_one = Inr g1 \<and>
     run [Tick, Track (Some item_b), Tick, Finish 0 (Visited [''15'']) ''t2'']
       \<lparr>glob = g1, in_flight = []\<rparr> = Inr s' \<and>
     ''a'' \<notin> tracked_ids g1 \<and> ''a'' \<notin> tracked_ids (glob s') \<and>
     map pa_ID (ch_buf (heap g1 7)) = [''a''] \<and>
     map pa_ID (ch_buf (heap (glob s') 7)) = [''a'', ''b''] \<and>
     alerts_for ''a'' (heap (glob s') 7) = alerts_for ''a'' (heap g1 7)"
proof -
  have sp1: "scrapePrice (Visited [''95'']) = Inr (''95'', 95)" by code_simp
  have sp2: "scrapePrice (Visited [''15'']) = Inr (''15'', 15)" by code_simp
  have le: "(95::rat) \<le> tr_TargetPrice item_a" by (simp add: item_a_def)
  have "\<exists>g1. checkAndNotify ''a'' item_a (Visited [''95'']) ''t1'' g_one = Inr g1 \<and>
          clients g1 = [7] \<and> trackingItems g1 = [] \<and>
          heap g1 7 = \<lparr>ch_buf = [\<lparr>pa_ID = ''a'', pa_URL = tr_URL item_a, pa_CurrentPrice = 95,
                                   pa_TargetPrice = tr_TargetPrice item_a, pa_PriceString = ''95'',
                                   pa_Timestamp = ''t1''\<rparr>],
                         ch_cap = 256, ch_closed = False\<rparr>"
    by (simp add: checkAndNotify_def broadcast_def sp1 g_one_def item_a_def)
  then obtain g1 where c: "checkAndNotify ''a'' item_a (Visited [''95'']) ''t1'' g_one = Inr g1"
    and g1: "clients g1 = [7]" "trackingItems g1 = []"
      "heap g1 7 = \<lparr>ch_buf = [\<lparr>pa_ID = ''a'', pa_URL = tr_URL item_a, pa_CurrentPrice = 95,
                                pa_TargetPrice = tr_TargetPrice item_a, pa_PriceString = ''95'',
                                pa_Timestamp = ''t1''\<rparr>],
                      ch_cap = 256, ch_closed = False\<rparr>"
    by (elim exE conjE) (rule that)
  have "\<exists>s'. run [Tick, Track (Some item_b), Tick, Finish 0 (Visited [''15'']) ''t2'']
               \<lparr>glob = g1, in_flight = []\<rparr> = Inr s' \<and>
             map pa_ID (ch_buf (heap (glob s') 7)) = [''a'', ''b'']"
    by (simp add: monitor_tick_def trackPriceHandler_def checkAndNotify_def broadcast_def sp2 g1
        item_b_def)
  then obtain s' where r: "run [Tick, Track (Some item_b), Tick, Finish 0 (Visited [''15'']) ''t2'']
               \<lparr>glob = g1, in_flight = []\<rparr> = Inr s'"
    and q: "map pa_ID (ch_buf (heap (glob s') 7)) = [''a'', ''b'']"
    by (elim exE conjE) (rule that)
  have nf: "''a'' \<notin> fst ` set ([] :: (string \<times> TrackingRequest) list)" by simp
  have nt: "\<not> list_ex (tracks ''a'') [Tick, Track (Some item_b), Tick, Finish 0 (Visited [''15'']) ''t2'']"
    by (simp add: item_b_def)
  from checkAndNotify_retires_item [OF sp1 le c nf nt r]
  have "''a'' \<notin> tracked_ids g1" and "''a'' \<notin> tracked_ids (glob s')"
    and "alerts_for ''a'' (heap (glob s') 7) = alerts_for ''a'' (heap g1 7)"
    by simp_all
  with c r q g1 show ?thesis by (intro exI [of _ g1] exI [of _ s']) simp
qed

text \<open>The claim C1 as stated fails when two checks of item \<^verbatim>\<open>a\<close> are in flight: the first
  observes 95, alerts and removes the item; the second then observes 90 and alerts
  again, so the subscriber's queue holds two alerts for \<^verbatim>\<open>a\<close>.\<close>

theorem repeated_alert_counterexample:
  "queued_ids 7 (run [Tick, Tick, Finish 0 (Visited [''95'']) ''t1'', Finish 0 (Visited [''90'']) ''t2'']
                    sys_one) = Some [''a'', ''a'']"
proof -
  have sp1: "scrapePrice (Visited [''95'']) = Inr (''95'', 95)" by code_simp
  have sp2: "scrapePrice (Visited [''90'']) = Inr (''90'', 90)" by code_simp
  show ?thesis
    by (simp add: queued_ids_def sys_one_def g_one_def item_a_def monitor_tick_def
        checkAndNotify_def broadcast_def sp1 sp2)
qed

section \<open>The monitoring loop of tracker.go\<close>

text \<open>
  \<^verbatim>\<open>StartMonitoring\<close> keeps the tracker after an alert (stopping is commented out in the
  source as optional) and only records the alerted price as the last price: a further
  drop below it alerts again.
\<close>

lemma StartMonitoring_alerts_again:
  "StartMonitoring [(page ''95'', NoResponse, PushSent 201), (page ''90'', NoResponse, PushSent 201)]
     (tracker_a, []) =
   Inr (tracker_a\<lparr>t_LastPrice := 90\<rparr>,
        [\<lparr>n_price = 95, n_url = ''https://shop.example/item/1''\<rparr>,
         \<lparr>n_price = 90, n_url = ''https://shop.example/item/1''\<rparr>])"
proof -
  have p1: "ScrapePriceWithSelector (page ''95'') ''.price'' = Inr 95" by code_simp
  have p2: "ScrapePriceWithSelector (page ''90'') ''.price'' = Inr 90" by code_simp
  have u: "TruncateURL ''https://shop.example/item/1'' 40 = Inr ''https://shop.example/item/1''"
    by (simp add: TruncateURL_def)
  show ?thesis
    by (simp add: StartMonitoring_tick_def sendNotification_def tracker_a_def p1 p2 u)
qed

end
